theory Spec2Isabelle
  imports Main "HOL-Library.Multiset" "HOL-Library.Char_ord" "HOL-Library.List_Lexorder"
    "HOL-Library.AList" "HOL-Library.Word"
begin

section \<open>Python values, exceptions and string primitives\<close>

text \<open>
  The generator \<^verbatim>\<open>implib-gen.py\<close> keeps every parsed row of tool output in a Python
  dictionary whose keys are the column names of the header line. A dictionary is a map
  from strings to values; a value is one of the Python objects the script stores there.
  Text is taken to be ASCII: one \<open>char\<close> is one code point.
\<close>

datatype error =
    KeyError
  | ValueError
  | TypeError
  | AssertionError
  | SystemExit string  \<comment> \<open>\<^verbatim>\<open>error(msg)\<close>: the message is printed and the process exits with status 1\<close>

datatype pyval =
    StrV string
  | IntV int
  | BoolV bool
  | NoneV
  | TupV string int  \<comment> \<open>the pair \<^verbatim>\<open>(symbol_name, addend)\<close> of a relocation target\<close>

type_synonym pydict = "string \<rightharpoonup> pyval"

text \<open>Truth value of an object in \<^verbatim>\<open>if x:\<close>.\<close>

fun truthy :: "pyval \<Rightarrow> bool" where
  "truthy (StrV s) = (s \<noteq> [])"
| "truthy (IntV n) = (n \<noteq> 0)"
| "truthy (BoolV b) = b"
| "truthy NoneV = False"
| "truthy (TupV s n) = True"

text \<open>
  Whitespace as \<^verbatim>\<open>str.strip()\<close>, \<^verbatim>\<open>str.split()\<close>, \<^verbatim>\<open>\s\<close> and \<^verbatim>\<open>int()\<close> see it in
  ASCII: space, \<^verbatim>\<open>\t \n \v \f \r\<close> and the separators 0x1c to 0x1f.
\<close>

definition is_space :: "char \<Rightarrow> bool" where
  "is_space c = (let n = (of_char c :: nat) in n = 32 \<or> (9 \<le> n \<and> n \<le> 13) \<or> (28 \<le> n \<and> n \<le> 31))"

definition is_digit :: "char \<Rightarrow> bool" where
  "is_digit c = (let n = (of_char c :: nat) in 48 \<le> n \<and> n \<le> 57)"

definition is_upper :: "char \<Rightarrow> bool" where
  "is_upper c = (let n = (of_char c :: nat) in 65 \<le> n \<and> n \<le> 90)"

definition is_lower :: "char \<Rightarrow> bool" where
  "is_lower c = (let n = (of_char c :: nat) in 97 \<le> n \<and> n \<le> 122)"

text \<open>\<^verbatim>\<open>s.strip()\<close>\<close>

definition strip :: "string \<Rightarrow> string" where
  "strip s = rev (dropWhile is_space (rev (dropWhile is_space s)))"

text \<open>\<^verbatim>\<open>s.startswith(p)\<close> and \<^verbatim>\<open>s.endswith(p)\<close>\<close>

definition startswith :: "string \<Rightarrow> string \<Rightarrow> bool" where
  "startswith s p = (take (length p) s = p)"

definition endswith :: "string \<Rightarrow> string \<Rightarrow> bool" where
  "endswith s p = (length p \<le> length s \<and> drop (length s - length p) s = p)"

text \<open>\<^verbatim>\<open>sub in s\<close> for strings\<close>

primrec contains :: "string \<Rightarrow> string \<Rightarrow> bool" where
  "contains [] sub = (sub = [])"
| "contains (c # cs) sub = (startswith (c # cs) sub \<or> contains cs sub)"

text \<open>
  \<^verbatim>\<open>re.split(r"C+", s)\<close> for a character class \<open>C\<close>: the pieces between the maximal
  runs of characters of the class, empty pieces at both ends included.
\<close>

fun split_runs :: "(char \<Rightarrow> bool) \<Rightarrow> string \<Rightarrow> string list" where
  "split_runs P [] = [[]]"
| "split_runs P (c # cs) =
     (if P c then (case cs of [] \<Rightarrow> [[], []]
                   | d # ds \<Rightarrow> if P d then split_runs P cs else [] # split_runs P cs)
      else (case split_runs P cs of [] \<Rightarrow> [[c]] | w # ws \<Rightarrow> (c # w) # ws))"

text \<open>\<^verbatim>\<open>s.split(d)\<close> for a one-character separator: every occurrence splits.\<close>

fun split_on :: "char \<Rightarrow> string \<Rightarrow> string list" where
  "split_on d [] = [[]]"
| "split_on d (c # cs) =
     (if c = d then [] # split_on d cs
      else (case split_on d cs of [] \<Rightarrow> [[c]] | w # ws \<Rightarrow> (c # w) # ws))"

text \<open>\<^verbatim>\<open>s.split()\<close>: the non-empty words between runs of whitespace.\<close>

definition py_split :: "string \<Rightarrow> string list" where
  "py_split s = filter (\<lambda>w. w \<noteq> []) (split_runs is_space s)"

text \<open>\<^verbatim>\<open>s.upper()\<close> and \<^verbatim>\<open>s.isupper()\<close>\<close>

definition upper :: "string \<Rightarrow> string" where
  "upper s = map (\<lambda>c. if is_lower c then char_of (of_char c - (32::nat)) else c) s"

definition isupper :: "string \<Rightarrow> bool" where
  "isupper s = (list_ex is_upper s \<and> \<not> list_ex is_lower s)"

subsection \<open>\<^verbatim>\<open>int(s, base)\<close> for the bases the script uses\<close>

text \<open>
  \<^verbatim>\<open>int(s, 16)\<close> and \<^verbatim>\<open>int(s, 0)\<close>: surrounding whitespace is dropped, a sign is read,
  then an optional prefix (\<^verbatim>\<open>0x\<close> in base 16; \<^verbatim>\<open>0x\<close>, \<^verbatim>\<open>0o\<close>, \<^verbatim>\<open>0b\<close> in base 0, which
  reads decimal otherwise), then digits with single underscores between them. A decimal
  numeral with a leading zero is accepted in base 0 only when its value is zero. \<open>None\<close>
  stands for the \<^verbatim>\<open>ValueError\<close>.
\<close>

definition digit_val :: "nat \<Rightarrow> char \<Rightarrow> nat option" where
  "digit_val b c =
     (let n = (of_char c :: nat);
          v = (if 48 \<le> n \<and> n \<le> 57 then Some (n - 48)
               else if 97 \<le> n \<and> n \<le> 122 then Some (n - 87)
               else if 65 \<le> n \<and> n \<le> 90 then Some (n - 55)
               else None)
      in case v of None \<Rightarrow> None | Some d \<Rightarrow> if d < b then Some d else None)"

fun py_digits :: "nat \<Rightarrow> nat \<Rightarrow> string \<Rightarrow> nat option" where
  "py_digits b acc [] = Some acc"
| "py_digits b acc (c # cs) =
     (if c = CHR ''_'' then
        (case cs of [] \<Rightarrow> None
         | d # ds \<Rightarrow> (case digit_val b d of None \<Rightarrow> None
                      | Some v \<Rightarrow> py_digits b (acc * b + v) ds))
      else (case digit_val b c of None \<Rightarrow> None
            | Some v \<Rightarrow> py_digits b (acc * b + v) cs))"

definition py_number :: "nat \<Rightarrow> string \<Rightarrow> nat option" where
  "py_number b s =
     (case s of [] \<Rightarrow> None
      | c # cs \<Rightarrow> (case digit_val b c of None \<Rightarrow> None | Some v \<Rightarrow> py_digits b v cs))"

definition skip_prefix :: "string \<Rightarrow> string" where
  "skip_prefix s = (let r = drop 2 s in case r of [] \<Rightarrow> r | c # cs \<Rightarrow> if c = CHR ''_'' then cs else r)"

definition has_prefix :: "string \<Rightarrow> char \<Rightarrow> char \<Rightarrow> bool" where
  "has_prefix s l u = (case s of c # d # r \<Rightarrow> c = CHR ''0'' \<and> (d = l \<or> d = u) | _ \<Rightarrow> False)"

definition py_magnitude :: "nat \<Rightarrow> string \<Rightarrow> nat option" where
  "py_magnitude base s =
     (if base = 0 then
        (if \<not> startswith s ''0'' then py_number 10 s
         else if has_prefix s (CHR ''x'') (CHR ''X'') then py_number 16 (skip_prefix s)
         else if has_prefix s (CHR ''o'') (CHR ''O'') then py_number 8 (skip_prefix s)
         else if has_prefix s (CHR ''b'') (CHR ''B'') then py_number 2 (skip_prefix s)
         else (case py_number 10 s of None \<Rightarrow> None
               | Some n \<Rightarrow> if n = 0 then Some 0 else None))
      else if base = 16 \<and> has_prefix s (CHR ''x'') (CHR ''X'') then py_number 16 (skip_prefix s)
      else py_number base s)"

definition py_int :: "nat \<Rightarrow> string \<Rightarrow> int option" where
  "py_int base s =
     (let t = strip s;
          neg = startswith t ''-'';
          u = (if startswith t ''-'' \<or> startswith t ''+'' then tl t else t)
      in case py_magnitude base u of None \<Rightarrow> None
         | Some n \<Rightarrow> Some (if neg then - int n else int n))"

section \<open>Rows of tool output\<close>

text \<open>
  \<^verbatim>\<open>make_toc(words, renames)\<close> maps the index of each header word to its (renamed)
  column name. Its keys are \<open>0, 1, \<dots>\<close>, so the table is the list of the names.
\<close>

definition make_toc :: "string list \<Rightarrow> (string \<rightharpoonup> string) \<Rightarrow> string list" where
  "make_toc words renames = map (\<lambda>n. case renames n of None \<Rightarrow> n | Some r \<Rightarrow> r) words"

text \<open>
  \<^verbatim>\<open>parse_row(words, toc, hex_keys)\<close>: the cell of column \<open>k\<close> is the word at the
  column's index, or the empty string when the row is shorter; then every non-empty cell
  of a key in \<open>hex_keys\<close> is replaced by its value as a hexadecimal numeral. A key of
  \<open>hex_keys\<close> that is no column raises \<^verbatim>\<open>KeyError\<close>.
\<close>

definition row_cells :: "string list \<Rightarrow> string list \<Rightarrow> pydict" where
  "row_cells words toc =
     fold (\<lambda>(i, k) vals. vals(k \<mapsto> StrV (if i < length words then words ! i else [])))
       (enumerate 0 toc) Map.empty"

fun hex_cells :: "string list \<Rightarrow> pydict \<Rightarrow> error + pydict" where
  "hex_cells [] vals = Inr vals"
| "hex_cells (k # ks) vals =
     (case vals k of None \<Rightarrow> Inl KeyError
      | Some v \<Rightarrow>
          if truthy v then
            (case v of
               StrV s \<Rightarrow> (case py_int 16 s of None \<Rightarrow> Inl ValueError
                          | Some n \<Rightarrow> hex_cells ks (vals(k \<mapsto> IntV n)))
             | _ \<Rightarrow> Inl TypeError)
          else hex_cells ks vals)"

definition parse_row :: "string list \<Rightarrow> string list \<Rightarrow> string list \<Rightarrow> error + pydict" where
  "parse_row words toc hex_keys = hex_cells hex_keys (row_cells words toc)"

section \<open>The export filter\<close>

text \<open>
  \<^verbatim>\<open>is_exported(s)\<close> of \<^verbatim>\<open>main\<close>, with the option \<^verbatim>\<open>args.no_weak_symbols\<close> as its first
  argument. The list of conditions is built before \<^verbatim>\<open>all\<close> looks at it, so a symbol
  that lacks one of the five keys raises \<^verbatim>\<open>KeyError\<close> whatever the other cells hold.
\<close>

definition is_exported :: "bool \<Rightarrow> pydict \<Rightarrow> error + bool" where
  "is_exported no_weak_symbols s =
     (case (s ''Bind'', s ''Visibility'', s ''Type'', s ''Ndx'', s ''Name'') of
        (Some bind, Some vis, Some typ, Some ndx, Some name) \<Rightarrow>
          (let conditions = [bind \<noteq> StrV ''LOCAL'',
                             vis \<noteq> StrV ''HIDDEN'',
                             typ \<noteq> StrV ''NOTYPE'',
                             ndx \<noteq> StrV ''UND'',
                             name \<notin> set [StrV '''', StrV ''_init'', StrV ''_fini'']];
               conditions = (if no_weak_symbols then conditions @ [bind \<noteq> StrV ''WEAK'']
                             else conditions)
           in Inr (list_all id conditions))
      | _ \<Rightarrow> Inl KeyError)"

section \<open>The symbol collector\<close>

text \<open>
  \<^verbatim>\<open>collect_syms(f)\<close> runs three tools on the file. The model takes what they print:
  the lines of \<^verbatim>\<open>nm -g\<close> (\<^verbatim>\<open>nm_out.splitlines()\<close>), whether the output of \<^verbatim>\<open>file\<close>
  contains \<^verbatim>\<open>Mach-O\<close>, and the lines of \<^verbatim>\<open>readelf -sW\<close> (of \<^verbatim>\<open>nm -D\<close> for Mach-O).
\<close>

text \<open>The visibility dictionary built from the \<^verbatim>\<open>nm -g\<close> listing.\<close>

definition nm_visibility :: "string list \<Rightarrow> (string \<rightharpoonup> string)" where
  "nm_visibility nm_lines =
     fold (\<lambda>line visibility.
             let parts = py_split line in
             if 3 \<le> length parts then
               (let symbol_type = parts ! 1; symbol_name = parts ! 2
                in visibility(symbol_name \<mapsto> (if isupper symbol_type then ''DEFAULT'' else ''HIDDEN'')))
             else visibility)
       nm_lines Map.empty"

text \<open>\<^verbatim>\<open>visibility.get(name, "DEFAULT")\<close>\<close>

definition visibility_get :: "(string \<rightharpoonup> string) \<Rightarrow> string \<Rightarrow> string" where
  "visibility_get visibility name = (case visibility name of None \<Rightarrow> ''DEFAULT'' | Some v \<Rightarrow> v)"

text \<open>
  \<^verbatim>\<open>re.sub(r"\[<localentry>: [0-9]+\]", "", line)\<close>: \<open>localentry_match\<close> is the text
  after a marker that starts the string, when there is one.
\<close>

definition localentry_match :: "string \<Rightarrow> string option" where
  "localentry_match s =
     (let p = ''[<localentry>: '' in
      if startswith s p then
        (let r = drop (length p) s; ds = takeWhile is_digit r
         in case dropWhile is_digit r of [] \<Rightarrow> None
            | c # rest \<Rightarrow> if ds \<noteq> [] \<and> c = CHR '']'' then Some rest else None)
      else None)"

lemma localentry_match_shorter: "localentry_match s = Some r \<Longrightarrow> length r < length s"
proof -
  assume m: "localentry_match s = Some r"
  define t where "t = drop (length ''[<localentry>: '') s"
  from m obtain c where c: "dropWhile is_digit t = c # r"
    by (auto simp: localentry_match_def Let_def t_def split: if_splits list.splits)
  have "length (dropWhile is_digit t) \<le> length t" by (rule length_dropWhile_le)
  with c have "length r < length t" by simp
  also have "length t \<le> length s" by (simp add: t_def)
  finally show ?thesis .
qed

function sub_localentry :: "string \<Rightarrow> string" where
  "sub_localentry [] = []"
| "sub_localentry (c # cs) =
     (case localentry_match (c # cs) of
        Some rest \<Rightarrow> sub_localentry rest
      | None \<Rightarrow> c # sub_localentry cs)"
  by pat_completeness auto
termination
  by (relation "measure length") (auto dest: localentry_match_shorter)

text \<open>
  Lines 212 to 219: a name with an \<^verbatim>\<open>@\<close> is split at its runs of \<^verbatim>\<open>@\<close>; the
  assignment \<^verbatim>\<open>name, ver = re.split(r"@+", name)\<close> raises \<^verbatim>\<open>ValueError\<close> unless there
  are exactly two pieces. The result is the name used from there on and the updated row.
\<close>

definition version_split :: "string \<Rightarrow> pydict \<Rightarrow> error + string \<times> pydict" where
  "version_split name symb =
     (if CHR ''@'' \<in> set name then
        (case split_runs (\<lambda>c. c = CHR ''@'') name of
           [n, ver] \<Rightarrow>
             Inr (n, symb(''Default'' \<mapsto> BoolV (contains name ''@@''),
                         ''Name'' \<mapsto> StrV n,
                         ''Version'' \<mapsto> StrV ver))
         | _ \<Rightarrow> Inl ValueError)
      else Inr (name, symb(''Default'' \<mapsto> BoolV True, ''Version'' \<mapsto> NoneV)))"

text \<open>
  Lines 202 to 223, one row under a header: the state is the list \<^verbatim>\<open>syms\<close> and the set
  \<^verbatim>\<open>syms_set\<close>. The cells \<^verbatim>\<open>Name\<close> and \<^verbatim>\<open>Size\<close> are strings whenever they exist (only
  \<^verbatim>\<open>Value\<close> is converted by \<^verbatim>\<open>parse_row\<close>); the branches for other values are never
  taken.
\<close>

definition elf_row ::
  "(string \<rightharpoonup> string) \<Rightarrow> string list \<Rightarrow> string list \<Rightarrow> pydict list \<times> string set
     \<Rightarrow> error + pydict list \<times> string set" where
  "elf_row visibility toc words st =
     (case parse_row words toc [''Value''] of Inl e \<Rightarrow> Inl e
      | Inr symb \<Rightarrow>
     (case symb ''Name'' of None \<Rightarrow> Inl KeyError
      | Some (StrV name) \<Rightarrow>
          if name = [] then Inr st
          else if name \<in> snd st then Inr st
          else
            (case symb ''Size'' of None \<Rightarrow> Inl KeyError
             | Some (StrV size_cell) \<Rightarrow>
                 (case py_int 0 size_cell of None \<Rightarrow> Inl ValueError
                  | Some n \<Rightarrow>
                 (case version_split name (symb(''Size'' \<mapsto> IntV n)) of Inl e \<Rightarrow> Inl e
                  | Inr (name', symb') \<Rightarrow>
                      Inr (fst st @ [symb'(''Visibility'' \<mapsto> StrV (visibility_get visibility name'))],
                           insert name (snd st))))
             | Some _ \<Rightarrow> Inl TypeError)
      | Some _ \<Rightarrow> Inl TypeError))"

text \<open>
  The loop over the lines of \<^verbatim>\<open>readelf -sW\<close>: the state is \<^verbatim>\<open>toc\<close> (\<open>None\<close> outside a
  symbol table), \<^verbatim>\<open>syms\<close> and \<^verbatim>\<open>syms_set\<close>.
\<close>

fun elf_loop ::
  "(string \<rightharpoonup> string) \<Rightarrow> string list \<Rightarrow> string list option \<times> pydict list \<times> string set
     \<Rightarrow> error + string list option \<times> pydict list \<times> string set" where
  "elf_loop visibility [] st = Inr st"
| "elf_loop visibility (l # ls) (toc, syms, syms_set) =
     (let line = sub_localentry (strip l) in
      if line = [] then elf_loop visibility ls (None, syms, syms_set)
      else
        (let words = split_runs (\<lambda>c. c = CHR '' '') line in
         if startswith line ''Num'' then
           (if toc \<noteq> None then Inl (SystemExit ''multiple headers in output of readelf'')
            else elf_loop visibility ls
                   (Some (make_toc (map (filter (\<lambda>c. c \<noteq> CHR '':'')) words) Map.empty),
                    syms, syms_set))
         else
           (case toc of None \<Rightarrow> elf_loop visibility ls (toc, syms, syms_set)
            | Some t \<Rightarrow>
                (case elf_row visibility t words (syms, syms_set) of Inl e \<Rightarrow> Inl e
                 | Inr (syms', syms_set') \<Rightarrow> elf_loop visibility ls (toc, syms', syms_set')))))"

text \<open>One line of \<^verbatim>\<open>nm -D\<close> for a Mach-O file, split into its words.\<close>

definition macho_row ::
  "(string \<rightharpoonup> string) \<Rightarrow> string list \<Rightarrow> pydict list \<times> string set
     \<Rightarrow> error + pydict list \<times> string set" where
  "macho_row visibility parts st =
     (if 3 \<le> length parts then
        (let address = parts ! 0; symbol_type = parts ! 1; name = parts ! 2 in
         if name \<in> snd st then Inr st
         else
           (case (if address \<noteq> ''U'' then py_int 16 address else Some 0) of
              None \<Rightarrow> Inl ValueError
            | Some v \<Rightarrow>
                Inr (fst st @
                       [[''Name'' \<mapsto> StrV name,
                         ''Value'' \<mapsto> IntV v,
                         ''Size'' \<mapsto> IntV 0,
                         ''Type'' \<mapsto> StrV (if upper symbol_type = ''T'' then ''FUNC'' else ''OBJECT''),
                         ''Bind'' \<mapsto> StrV (if isupper symbol_type then ''GLOBAL'' else ''LOCAL''),
                         ''Ndx'' \<mapsto> StrV (if upper symbol_type \<noteq> ''U'' then ''1'' else ''UND''),
                         ''Default'' \<mapsto> BoolV True,
                         ''Version'' \<mapsto> NoneV,
                         ''Visibility'' \<mapsto> StrV (visibility_get visibility name)]],
                     insert name (snd st))))
      else Inr st)"

fun macho_loop ::
  "(string \<rightharpoonup> string) \<Rightarrow> string list \<Rightarrow> pydict list \<times> string set
     \<Rightarrow> error + pydict list \<times> string set" where
  "macho_loop visibility [] st = Inr st"
| "macho_loop visibility (l # ls) st =
     (let line = strip l in
      if line = [] then macho_loop visibility ls st
      else (case macho_row visibility (py_split line) st of Inl e \<Rightarrow> Inl e
            | Inr st' \<Rightarrow> macho_loop visibility ls st'))"

definition collect_syms :: "string \<Rightarrow> string list \<Rightarrow> bool \<Rightarrow> string list \<Rightarrow> error + pydict list" where
  "collect_syms f nm_lines is_macho out_lines =
     (let visibility = nm_visibility nm_lines in
      if is_macho then
        (case macho_loop visibility out_lines ([], {}) of Inl e \<Rightarrow> Inl e
         | Inr (syms, syms_set) \<Rightarrow> Inr syms)
      else
        (case elf_loop visibility out_lines (None, [], {}) of Inl e \<Rightarrow> Inl e
         | Inr (toc, syms, syms_set) \<Rightarrow>
             if toc = None then Inl (SystemExit (''failed to analyze symbols in '' @ f))
             else Inr syms))"

section \<open>The vtable stage\<close>

text \<open>
  In vtable mode \<^verbatim>\<open>main\<close> passes symbols, sections and relocations on to the functions
  that rebuild the tables. These functions read the cells \<^verbatim>\<open>Value\<close>, \<^verbatim>\<open>Size\<close> and
  \<^verbatim>\<open>Demangled Name\<close> of a symbol, \<^verbatim>\<open>Address\<close>, \<^verbatim>\<open>Off\<close> and \<^verbatim>\<open>Size\<close> of a section, and
  \<^verbatim>\<open>Offset\<close>, \<^verbatim>\<open>Type\<close> and \<^verbatim>\<open>Symbol's Name + Addend\<close> of a relocation. The records below
  hold these cells with the types the parsers give them: an address, an offset or a size
  is the value of a hexadecimal (for a symbol's size, possibly decimal) numeral, a natural
  number; the target of a relocation is the pair that \<^verbatim>\<open>collect_relocs\<close> stores, or
  \<open>None\<close> where the cell was empty and stayed the empty string. A dictionary that is
  iterated in sorted order is the list of its items; its keys are distinct.
\<close>

record symbol =
  sym_Value :: nat
  sym_Size :: nat
  sym_Demangled_Name :: string

record elf_section =
  sec_Address :: nat
  sec_Off :: nat
  sec_Size :: nat

record reloc =
  rel_Offset :: nat
  rel_Info :: nat
  rel_Type :: string
  rel_Target :: "(string \<times> int) option"

text \<open>The pairs \<^verbatim>\<open>("byte", n)\<close>, \<^verbatim>\<open>("offset", n)\<close> and \<^verbatim>\<open>("reloc", rel)\<close>.\<close>

datatype slot = Byte nat | Offset nat | Reloc reloc

subsection \<open>Numbers as text\<close>

text \<open>\<^verbatim>\<open>str(n)\<close> and the format \<^verbatim>\<open>{n:x}\<close>.\<close>

definition digit_char :: "nat \<Rightarrow> char" where
  "digit_char d = (if d < 10 then char_of (48 + d) else char_of (87 + d))"

fun str_nat :: "nat \<Rightarrow> string" where
  "str_nat n = (if n < 10 then [digit_char n] else str_nat (n div 10) @ [digit_char (n mod 10)])"

definition str_int :: "int \<Rightarrow> string" where
  "str_int i = (if i < 0 then ''-'' @ str_nat (nat (- i)) else str_nat (nat i))"

fun format_x :: "nat \<Rightarrow> string" where
  "format_x n = (if n < 16 then [digit_char n] else format_x (n div 16) @ [digit_char (n mod 16)])"

text \<open>\<^verbatim>\<open>sep.join(xs)\<close>\<close>

fun join :: "string \<Rightarrow> string list \<Rightarrow> string" where
  "join sep [] = []"
| "join sep [x] = x"
| "join sep (x # y # ys) = x @ sep @ join sep (y # ys)"

subsection \<open>Unrelocated data\<close>

text \<open>
  \<^verbatim>\<open>read_unrelocated_data(input_name, syms, secs)\<close>. The file is its bytes;
  \<^verbatim>\<open>f.seek(pos)\<close> followed by \<^verbatim>\<open>f.read(n)\<close> gives the \<open>n\<close> bytes from position \<open>pos\<close>,
  fewer at the end of the file.
\<close>

definition is_symbol_in_section :: "symbol \<Rightarrow> elf_section \<Rightarrow> bool" where
  "is_symbol_in_section s sec =
     (let sec_end = sec_Address sec + sec_Size sec;
          is_start_in_section = (sec_Address sec \<le> sym_Value s \<and> sym_Value s < sec_end);
          is_end_in_section = (sym_Value s + sym_Size s \<le> sec_end)
      in is_start_in_section \<and> is_end_in_section)"

definition seek_read :: "8 word list \<Rightarrow> nat \<Rightarrow> nat \<Rightarrow> 8 word list" where
  "seek_read file pos n = take n (drop pos file)"

fun read_symbols ::
  "8 word list \<Rightarrow> elf_section list \<Rightarrow> (string \<times> symbol) list \<Rightarrow> (string \<times> 8 word list) list
     \<Rightarrow> error + (string \<times> 8 word list) list" where
  "read_symbols file secs [] data = Inr data"
| "read_symbols file secs ((name, s) # rest) data =
     (let sec = filter (is_symbol_in_section s) secs in
      if length sec \<noteq> 1 then
        Inl (SystemExit (''failed to locate section for interval ['' @ format_x (sym_Value s) @
                         '', '' @ format_x (sym_Value s + sym_Size s) @ '')''))
      else
        (let sec = hd sec in
         read_symbols file secs rest
           (AList.update name (seek_read file (sec_Off sec) (sym_Size s)) data)))"

definition read_unrelocated_data ::
  "8 word list \<Rightarrow> (string \<times> symbol) list \<Rightarrow> elf_section list
     \<Rightarrow> error + (string \<times> 8 word list) list" where
  "read_unrelocated_data file syms secs =
     read_symbols file secs (sort_key (\<lambda>item. sym_Value (snd item)) syms) []"

subsection \<open>Relocated data\<close>

text \<open>
  \<^verbatim>\<open>int.from_bytes(bs, byteorder="little")\<close>, the slice \<^verbatim>\<open>b[i:j]\<close> and
  \<^verbatim>\<open>range(0, n, step)\<close> for a positive step.
\<close>

definition from_bytes_little :: "8 word list \<Rightarrow> nat" where
  "from_bytes_little bs = foldr (\<lambda>b acc. unat b + 256 * acc) bs 0"

definition py_slice :: "'a list \<Rightarrow> nat \<Rightarrow> nat \<Rightarrow> 'a list" where
  "py_slice xs i j = take (j - i) (drop i xs)"

definition py_range :: "nat \<Rightarrow> nat \<Rightarrow> nat list" where
  "py_range n step = map (\<lambda>k. k * step) [0 ..< (n + step - 1) div step]"

text \<open>
  Lines 416 to 421: the loop variable \<open>i\<close> already advances by \<^verbatim>\<open>ptr_size\<close>, and the
  slice multiplies it by \<^verbatim>\<open>ptr_size\<close> once more.
\<close>

definition offsets :: "8 word list \<Rightarrow> nat \<Rightarrow> slot list" where
  "offsets b ptr_size =
     map (\<lambda>i. Offset (from_bytes_little (py_slice b (i * ptr_size) ((i + 1) * ptr_size))))
       (py_range (length b) ptr_size)"

text \<open>Lines 425 to 429: the loop over the relocations, with its assertion.\<close>

fun overlay :: "nat \<Rightarrow> nat \<Rightarrow> nat \<Rightarrow> string set \<Rightarrow> reloc list \<Rightarrow> slot list \<Rightarrow> error + slot list" where
  "overlay start finish ptr_size reloc_types [] d = Inr d"
| "overlay start finish ptr_size reloc_types (rel # rels) d =
     (if rel_Type rel \<in> reloc_types \<and> start \<le> rel_Offset rel \<and> rel_Offset rel < finish then
        (let i = (rel_Offset rel - start) div ptr_size in
         if i < length d then overlay start finish ptr_size reloc_types rels (d[i := Reloc rel])
         else Inl AssertionError)
      else overlay start finish ptr_size reloc_types rels d)"

text \<open>
  The body of the loop over the symbols, lines 411 to 429, for a symbol \<open>s\<close> and the
  result \<open>bo\<close> of \<^verbatim>\<open>bites.get(name)\<close>. \<^verbatim>\<open>range\<close> raises \<^verbatim>\<open>ValueError\<close> for a zero step.
\<close>

definition symbol_data ::
  "symbol \<Rightarrow> 8 word list option \<Rightarrow> reloc list \<Rightarrow> nat \<Rightarrow> string set \<Rightarrow> error + slot list" where
  "symbol_data s bo rels ptr_size reloc_types =
     (case bo of None \<Rightarrow> Inl AssertionError
      | Some b \<Rightarrow>
          if startswith (sym_Demangled_Name s) ''typeinfo name'' then
            Inr (map (\<lambda>x. Byte (unat x)) b)
          else if ptr_size = 0 then Inl ValueError
          else overlay (sym_Value s) (sym_Value s + sym_Size s) ptr_size reloc_types rels
                 (offsets b ptr_size))"

fun collect_symbols ::
  "(string \<times> 8 word list) list \<Rightarrow> reloc list \<Rightarrow> nat \<Rightarrow> string set \<Rightarrow> (string \<times> symbol) list
     \<Rightarrow> (string \<times> slot list) list \<Rightarrow> error + (string \<times> slot list) list" where
  "collect_symbols bites rels ptr_size reloc_types [] data = Inr data"
| "collect_symbols bites rels ptr_size reloc_types ((name, s) # rest) data =
     (case symbol_data s (map_of bites name) rels ptr_size reloc_types of
        Inl e \<Rightarrow> Inl e
      | Inr d \<Rightarrow> collect_symbols bites rels ptr_size reloc_types rest (AList.update name d data))"

definition collect_relocated_data ::
  "(string \<times> symbol) list \<Rightarrow> (string \<times> 8 word list) list \<Rightarrow> reloc list \<Rightarrow> nat \<Rightarrow> string set
     \<Rightarrow> error + (string \<times> slot list) list" where
  "collect_relocated_data syms bites rels ptr_size reloc_types =
     collect_symbols bites rels ptr_size reloc_types (sort_key fst syms) []"

subsection \<open>The C text of the tables\<close>

text \<open>
  \<^verbatim>\<open>re.sub(r"@.*", "", sym_name)\<close>: from an \<^verbatim>\<open>@\<close> to the end of its line. The flag says
  that the text read is inside a match.
\<close>

fun sub_at :: "bool \<Rightarrow> string \<Rightarrow> string" where
  "sub_at inside [] = []"
| "sub_at inside (c # cs) =
     (if c = CHR 0x0A then c # sub_at False cs
      else if inside then sub_at True cs
      else if c = CHR ''@'' then sub_at True cs
      else c # sub_at False cs)"

text \<open>
  \<^verbatim>\<open>sym_name, addend = val["Symbol's Name + Addend"]\<close>: unpacking the empty string raises
  \<^verbatim>\<open>ValueError\<close>.
\<close>

definition reloc_target :: "reloc \<Rightarrow> error + string \<times> int" where
  "reloc_target rel = (case rel_Target rel of None \<Rightarrow> Inl ValueError | Some t \<Rightarrow> Inr t)"

text \<open>
  Lines 451 to 461 for the slots of one symbol: \<open>keys\<close> are the keys of \<^verbatim>\<open>cls_syms\<close>. The
  set \<^verbatim>\<open>printed\<close> is tested, and no statement of the function adds to it.
\<close>

fun extern_decls :: "string set \<Rightarrow> string set \<Rightarrow> slot list \<Rightarrow> error + string list" where
  "extern_decls keys printed [] = Inr []"
| "extern_decls keys printed (Reloc val # data) =
     (case reloc_target val of Inl e \<Rightarrow> Inl e
      | Inr (sym_name, addend) \<Rightarrow>
          (let sym_name = sub_at False sym_name;
               ss = (if sym_name \<notin> keys \<and> sym_name \<notin> printed
                     then [''extern const char '' @ sym_name @ ''[];'' @ [CHR 0x0A, CHR 0x0A]]
                     else [])
           in case extern_decls keys printed data of Inl e \<Rightarrow> Inl e | Inr rest \<Rightarrow> Inr (ss @ rest)))"
| "extern_decls keys printed (other # data) = extern_decls keys printed data"

fun externs :: "string set \<Rightarrow> string set \<Rightarrow> (string \<times> slot list) list \<Rightarrow> error + string list" where
  "externs keys printed [] = Inr []"
| "externs keys printed ((name, data) # items) =
     (case extern_decls keys printed data of Inl e \<Rightarrow> Inl e
      | Inr ss \<Rightarrow> (case externs keys printed items of Inl e \<Rightarrow> Inl e | Inr rest \<Rightarrow> Inr (ss @ rest)))"

text \<open>\<^verbatim>\<open>c_types[typ]\<close>\<close>

fun c_types :: "slot \<Rightarrow> string" where
  "c_types (Reloc val) = ''const void *''"
| "c_types (Byte val) = ''unsigned char''"
| "c_types (Offset val) = ''size_t''"

text \<open>
  Lines 468 to 488. A declarator is a format with one \<^verbatim>\<open>%s\<close>: the text before it and the
  text after it.
\<close>

fun initializer :: "slot \<Rightarrow> error + string" where
  "initializer (Reloc val) =
     (case reloc_target val of Inl e \<Rightarrow> Inl e
      | Inr (sym_name, addend) \<Rightarrow>
          Inr (''(const char *)&'' @ sub_at False sym_name @ '' + '' @ str_int addend))"
| "initializer (Byte val) = Inr (str_nat val @ ''UL'')"
| "initializer (Offset val) = Inr (str_nat val @ ''UL'')"

fun initializers :: "slot list \<Rightarrow> error + string list" where
  "initializers [] = Inr []"
| "initializers (x # xs) =
     (case initializer x of Inl e \<Rightarrow> Inl e
      | Inr v \<Rightarrow> (case initializers xs of Inl e \<Rightarrow> Inl e | Inr vals \<Rightarrow> Inr (v # vals)))"

definition declarator :: "symbol \<Rightarrow> slot list \<Rightarrow> string \<times> string" where
  "declarator s data =
     (if startswith (sym_Demangled_Name s) ''typeinfo name'' then (''const unsigned char '', ''[]'')
      else
        (let field_types = map (\<lambda>(i, x). c_types x @ '' field_'' @ str_nat i @ '';'') (enumerate 0 data)
         in (''const struct { '' @ join '' '' field_types @ '' } '', [])))"

fun code_infos ::
  "(string \<times> slot list) list \<Rightarrow> (string \<times> symbol) list
     \<Rightarrow> (string \<times> (string \<times> string) \<times> string) list
     \<Rightarrow> error + (string \<times> (string \<times> string) \<times> string) list" where
  "code_infos cls_data [] code_info = Inr code_info"
| "code_infos cls_data ((name, s) # items) code_info =
     (case map_of cls_data name of None \<Rightarrow> Inl KeyError
      | Some data \<Rightarrow>
          (case initializers data of Inl e \<Rightarrow> Inl e
           | Inr vals \<Rightarrow>
               code_infos cls_data items
                 (AList.update name (declarator s data, ''{ '' @ join '', '' vals @ '' }'') code_info)))"

definition declaration_text :: "string \<times> (string \<times> string) \<times> string \<Rightarrow> string" where
  "declaration_text item =
     (case item of (name, (before, after), init) \<Rightarrow>
        (let type_name = name @ ''_type''; type_decl = before @ type_name @ after
         in ''typedef '' @ type_decl @ '';'' @ [CHR 0x0A] @
            ''extern __attribute__((weak)) '' @ type_name @ '' '' @ name @ '';'' @ [CHR 0x0A]))"

definition definition_text :: "string \<times> (string \<times> string) \<times> string \<Rightarrow> string" where
  "definition_text item =
     (case item of (name, decl, init) \<Rightarrow>
        (let type_name = name @ ''_type''
         in ''const '' @ type_name @ '' '' @ name @ '' = '' @ init @ '';'' @ [CHR 0x0A]))"

definition generate_vtables ::
  "'a \<Rightarrow> (string \<times> symbol) list \<Rightarrow> (string \<times> slot list) list \<Rightarrow> error + string" where
  "generate_vtables cls_tables cls_syms cls_data =
     (let head = [''#ifdef __cplusplus'' @ [CHR 0x0A] @
                  ''extern '' @ [CHR 0x22] @ ''C'' @ [CHR 0x22] @ '' {'' @ [CHR 0x0A] @
                  ''#endif'' @ [CHR 0x0A, CHR 0x0A]];
          printed = {}
      in case externs (fst ` set cls_syms) printed (sort_key fst cls_data) of Inl e \<Rightarrow> Inl e
         | Inr ext \<Rightarrow>
        (case code_infos cls_data (sort_key fst cls_syms) [] of Inl e \<Rightarrow> Inl e
         | Inr code_info \<Rightarrow>
             Inr (concat (head @ ext @
                          map declaration_text (sort_key fst code_info) @
                          map definition_text (sort_key fst code_info) @
                          [''#ifdef __cplusplus'' @ [CHR 0x0A] @
                           ''}  // extern '' @ [CHR 0x22] @ ''C'' @ [CHR 0x22] @ [CHR 0x0A] @
                           ''#endif'' @ [CHR 0x0A]]))))"

section \<open>Rows of the relocation listing\<close>

text \<open>\<^verbatim>\<open>re.sub(r" \+ ", "+", line)\<close>\<close>

fun collapse_plus :: "string \<Rightarrow> string" where
  "collapse_plus (a # b # c # cs) =
     (if a = CHR '' '' \<and> b = CHR ''+'' \<and> c = CHR '' '' then CHR ''+'' # collapse_plus cs
      else a # collapse_plus (b # c # cs))"
| "collapse_plus cs = cs"

text \<open>
  Lines 334 to 337, for a non-empty cell: \<^verbatim>\<open>str.split("+")\<close> splits at every \<^verbatim>\<open>+\<close>; a
  cell without \<^verbatim>\<open>+\<close> becomes the addend of an empty symbol name.
\<close>

definition split_target :: "string \<Rightarrow> error + pyval" where
  "split_target cell =
     (let p = split_on (CHR ''+'') cell;
          p = (if length p = 1 then [[], p ! 0] else p)
      in case py_int 16 (p ! 1) of None \<Rightarrow> Inl ValueError
         | Some addend \<Rightarrow> Inr (TupV (p ! 0) addend))"

text \<open>
  Lines 324 to 337 of \<^verbatim>\<open>collect_relocs\<close>: one stripped line under a header whose
  columns are \<open>toc\<close>. The result is the dictionary appended to \<^verbatim>\<open>rels\<close>, after the
  updates made to it. The cells of the two name columns are strings whenever they
  exist; the branches for other values are never taken.
\<close>

definition reloc_row :: "string list \<Rightarrow> string \<Rightarrow> error + pydict" where
  "reloc_row toc line =
     (let line = collapse_plus line;
          words = split_runs is_space line
      in case parse_row words toc [''Offset'', ''Info''] of Inl e \<Rightarrow> Inl e
         | Inr rel \<Rightarrow>
        (let sym_name = ''Symbol's Name + Addend'';
             rel = (if rel sym_name = None \<and> rel ''Symbol's Name'' \<noteq> None then
                      (case rel ''Symbol's Name'' of
                         Some (StrV n) \<Rightarrow> rel(sym_name \<mapsto> StrV (n @ ''+0''))
                       | _ \<Rightarrow> rel)
                    else rel)
         in case rel sym_name of None \<Rightarrow> Inl KeyError
            | Some v \<Rightarrow>
                if truthy v then
                  (case v of
                     StrV cell \<Rightarrow>
                       (case split_target cell of Inl e \<Rightarrow> Inl e
                        | Inr target \<Rightarrow> Inr (rel(sym_name \<mapsto> target)))
                   | _ \<Rightarrow> Inl TypeError)
                else Inr rel))"

text \<open>The target stored by a row, \<^verbatim>\<open>rel["Symbol's Name + Addend"]\<close>.\<close>

definition stored_target :: "error + pydict \<Rightarrow> error + pyval option" where
  "stored_target r = (case r of Inl e \<Rightarrow> Inl e | Inr rel \<Rightarrow> Inr (rel ''Symbol's Name + Addend''))"

section \<open>The driver\<close>

text \<open>
  \<^verbatim>\<open>is_binary_file(filename)\<close>, from the return code of \<^verbatim>\<open>readelf -d\<close> and the output
  of \<^verbatim>\<open>file\<close> (\<open>None\<close> when the command could not be run).
\<close>

definition is_binary_file :: "int \<Rightarrow> string option \<Rightarrow> bool" where
  "is_binary_file readelf_returncode file_output =
     (if readelf_returncode = 0 then True
      else (case file_output of None \<Rightarrow> False
            | Some output \<Rightarrow> list_ex (contains output) [''Mach-O'', ''shared library'']))"

text \<open>
  Lines 845 to 847 of \<^verbatim>\<open>main\<close>, the first statement of the vtable stage: \<open>Inr ()\<close>
  means that control goes on to the collection of the tables.
\<close>

definition vtables_check :: "bool \<Rightarrow> bool \<Rightarrow> string \<Rightarrow> error + unit" where
  "vtables_check vtables binary input_name =
     (if vtables then
        (if \<not> binary \<and> endswith input_name ''.def'' then
           Inl (SystemExit ''vtables not supported for .def files'')
         else Inr ())
      else Inr ())"

text \<open>The names of the collected symbols, \<^verbatim>\<open>sym["Name"] for sym in syms\<close> of \<^verbatim>\<open>main\<close>.\<close>

definition stored_names :: "pydict list \<Rightarrow> pyval option list" where
  "stored_names syms = map (\<lambda>s. s ''Name'') syms"

subsection \<open>A sample of tool output\<close>

text \<open>
  A dynamic symbol table as \<^verbatim>\<open>readelf -sW\<close> prints it, with a default and a non-default
  version of \<^verbatim>\<open>read\<close>, and an \<^verbatim>\<open>nm -g\<close> listing that does not mention \<^verbatim>\<open>bar\<close>.
\<close>

definition readelf_sample :: "string list" where
  "readelf_sample =
     ['''',
      ''Symbol table .dynsym contains 4 entries:'',
      ''   Num:    Value          Size Type    Bind   Vis      Ndx Name'',
      ''     0: 0000000000000000     0 NOTYPE  LOCAL  DEFAULT  UND '',
      ''     1: 0000000000001139    11 FUNC    GLOBAL DEFAULT   14 read@@GLIBC_2.2.5'',
      ''     2: 0000000000001150  0x10 FUNC    GLOBAL DEFAULT   14 read@GLIBC_2.0'',
      ''     3: 0000000000001160    24 FUNC    WEAK   DEFAULT   14 bar'']"

definition nm_sample :: "string list" where
  "nm_sample = [''0000000000001139 T read'', ''                 U write'']"

subsection \<open>Sample tables\<close>

text \<open>
  A vtable of two pointers at address 0x1000 whose words are 1 and 2, and a relocation
  of an accepted type at a given offset.
\<close>

definition vtable_C :: symbol where
  "vtable_C = \<lparr>sym_Value = 4096, sym_Size = 16, sym_Demangled_Name = ''vtable for C''\<rparr>"

definition vtable_bytes :: "8 word list" where
  "vtable_bytes = [1, 0, 0, 0, 0, 0, 0, 0, 2, 0, 0, 0, 0, 0, 0, 0]"

definition reloc_at :: "nat \<Rightarrow> string \<Rightarrow> reloc" where
  "reloc_at off target =
     \<lparr>rel_Offset = off, rel_Info = 1, rel_Type = ''R_X86_64_64'', rel_Target = Some (target, 0)\<rparr>"

subsection \<open>The vocabulary of the overlay\<close>

text \<open>
  A relocation applies to a symbol when its type is accepted and its offset lies in the
  symbol; it then selects the slot at \<open>slot_index\<close>. A list is free of collisions for a
  symbol when no two different relocations of it apply and select the same slot.
  \<open>place\<close> is one step of the loop without its assertion.
\<close>

definition applies :: "symbol \<Rightarrow> string set \<Rightarrow> reloc \<Rightarrow> bool" where
  "applies s reloc_types r =
     (rel_Type r \<in> reloc_types \<and> sym_Value s \<le> rel_Offset r \<and> rel_Offset r < sym_Value s + sym_Size s)"

definition slot_index :: "symbol \<Rightarrow> nat \<Rightarrow> reloc \<Rightarrow> nat" where
  "slot_index s ptr_size r = (rel_Offset r - sym_Value s) div ptr_size"

definition collision_free :: "symbol \<Rightarrow> nat \<Rightarrow> string set \<Rightarrow> reloc list \<Rightarrow> bool" where
  "collision_free s ptr_size reloc_types rels =
     (\<forall>r\<in>set rels. \<forall>r'\<in>set rels.
        applies s reloc_types r \<and> applies s reloc_types r' \<and>
        slot_index s ptr_size r = slot_index s ptr_size r' \<longrightarrow> r = r')"

definition place :: "symbol \<Rightarrow> nat \<Rightarrow> string set \<Rightarrow> reloc \<Rightarrow> slot list \<Rightarrow> slot list" where
  "place s ptr_size reloc_types r d =
     (if applies s reloc_types r then d[slot_index s ptr_size r := Reloc r] else d)"

section \<open>Properties\<close>

subsection \<open>The export filter\<close>

text \<open>
  C5. For every symbol record (a dictionary that has the cells \<^verbatim>\<open>Bind\<close>,
  \<^verbatim>\<open>Visibility\<close>, \<^verbatim>\<open>Type\<close>, \<^verbatim>\<open>Ndx\<close> and \<^verbatim>\<open>Name\<close>), the export predicate returns, and
  it holds if and only if the binding is not \<^verbatim>\<open>LOCAL\<close>, the visibility is not
  \<^verbatim>\<open>HIDDEN\<close>, the type is not \<^verbatim>\<open>NOTYPE\<close>, the section index is not \<^verbatim>\<open>UND\<close>, the name
  is none of the empty string, \<^verbatim>\<open>_init\<close> and \<^verbatim>\<open>_fini\<close>, and, when the no-weak-symbols
  option is set, the binding is not \<^verbatim>\<open>WEAK\<close> either.
\<close>

theorem is_exported_iff:
  assumes "s ''Bind'' = Some bind" and "s ''Visibility'' = Some vis"
    and "s ''Type'' = Some typ" and "s ''Ndx'' = Some ndx" and "s ''Name'' = Some name"
  shows "is_exported no_weak_symbols s =
           Inr (bind \<noteq> StrV ''LOCAL'' \<and> vis \<noteq> StrV ''HIDDEN'' \<and> typ \<noteq> StrV ''NOTYPE'' \<and>
                ndx \<noteq> StrV ''UND'' \<and>
                name \<noteq> StrV '''' \<and> name \<noteq> StrV ''_init'' \<and> name \<noteq> StrV ''_fini'' \<and>
                (no_weak_symbols \<longrightarrow> bind \<noteq> StrV ''WEAK''))"
  using assms by (auto simp: is_exported_def Let_def)

theorem is_exported_iff_witness:
  "is_exported True [''Bind'' \<mapsto> StrV ''WEAK'', ''Visibility'' \<mapsto> StrV ''DEFAULT'',
      ''Type'' \<mapsto> StrV ''FUNC'', ''Ndx'' \<mapsto> StrV ''12'', ''Name'' \<mapsto> StrV ''read''] = Inr False \<and>
   is_exported False [''Bind'' \<mapsto> StrV ''WEAK'', ''Visibility'' \<mapsto> StrV ''DEFAULT'',
      ''Type'' \<mapsto> StrV ''FUNC'', ''Ndx'' \<mapsto> StrV ''12'', ''Name'' \<mapsto> StrV ''read''] = Inr True"
  using is_exported_iff [of "[''Bind'' \<mapsto> StrV ''WEAK'', ''Visibility'' \<mapsto> StrV ''DEFAULT'',
      ''Type'' \<mapsto> StrV ''FUNC'', ''Ndx'' \<mapsto> StrV ''12'', ''Name'' \<mapsto> StrV ''read'']"
      "StrV ''WEAK''" "StrV ''DEFAULT''" "StrV ''FUNC''" "StrV ''12''" "StrV ''read''" True]
    is_exported_iff [of "[''Bind'' \<mapsto> StrV ''WEAK'', ''Visibility'' \<mapsto> StrV ''DEFAULT'',
      ''Type'' \<mapsto> StrV ''FUNC'', ''Ndx'' \<mapsto> StrV ''12'', ''Name'' \<mapsto> StrV ''read'']"
      "StrV ''WEAK''" "StrV ''DEFAULT''" "StrV ''FUNC''" "StrV ''12''" "StrV ''read''" False]
  by simp

subsection \<open>Splitting at runs of a character\<close>

lemma split_runs_unfold:
  "split_runs P s =
     takeWhile (\<lambda>c. \<not> P c) s #
       (if dropWhile (\<lambda>c. \<not> P c) s = [] then []
        else split_runs P (dropWhile P (dropWhile (\<lambda>c. \<not> P c) s)))"
proof (induction s)
  case Nil
  show ?case by simp
next
  case (Cons c cs)
  show ?case
  proof (cases "P c")
    case True
    then show ?thesis using Cons by (cases cs) auto
  next
    case False
    then show ?thesis using Cons by (auto split: list.splits)
  qed
qed

lemma split_runs_none: "\<forall>c\<in>set s. \<not> P c \<Longrightarrow> split_runs P s = [s]"
  by (induction s) auto

lemma split_runs_some:
  assumes "\<exists>c\<in>set s. P c"
  shows "split_runs P s =
     takeWhile (\<lambda>c. \<not> P c) s # split_runs P (dropWhile P (dropWhile (\<lambda>c. \<not> P c) s))"
proof -
  from assms have "dropWhile (\<lambda>c. \<not> P c) s \<noteq> []" by simp
  then show ?thesis by (subst split_runs_unfold) (simp only: if_False)
qed

lemma split_runs_not_Nil: "split_runs P s \<noteq> []"
  by (subst split_runs_unfold) (simp only: list.distinct not_False_eq_True)

lemma split_runs_single:
  assumes "split_runs P s = [v]"
  shows "v = s \<and> (\<forall>c\<in>set s. \<not> P c)"
proof (cases "\<exists>c\<in>set s. P c")
  case True
  from split_runs_some [OF True] assms
  have "split_runs P (dropWhile P (dropWhile (\<lambda>c. \<not> P c) s)) = []" by simp
  with split_runs_not_Nil show ?thesis by blast
next
  case False
  then have n: "\<forall>c\<in>set s. \<not> P c" by blast
  from split_runs_none [OF n] assms n show ?thesis by simp
qed

lemma split_runs_pair:
  "split_runs P s = [n, v] \<longleftrightarrow>
     (\<exists>c\<in>set s. P c) \<and> n = takeWhile (\<lambda>c. \<not> P c) s \<and>
     v = dropWhile P (dropWhile (\<lambda>c. \<not> P c) s) \<and> (\<forall>c\<in>set v. \<not> P c)"
proof (cases "\<exists>c\<in>set s. P c")
  case False
  then have n: "\<forall>c\<in>set s. \<not> P c" by blast
  from split_runs_none [OF n] False show ?thesis by simp
next
  case True
  let ?r = "dropWhile P (dropWhile (\<lambda>c. \<not> P c) s)"
  note u = split_runs_some [OF True]
  show ?thesis
  proof
    assume "split_runs P s = [n, v]"
    with u have "takeWhile (\<lambda>c. \<not> P c) s # split_runs P ?r = [n, v]" by (simp only:)
    then have 1: "n = takeWhile (\<lambda>c. \<not> P c) s" and 2: "split_runs P ?r = [v]"
      by (simp_all only: list.inject)
    from split_runs_single [OF 2] have "v = ?r" and "\<forall>c\<in>set ?r. \<not> P c" by blast+
    then have "\<forall>c\<in>set v. \<not> P c" by (simp only:)
    with True 1 \<open>v = ?r\<close>
    show "(\<exists>c\<in>set s. P c) \<and> n = takeWhile (\<lambda>c. \<not> P c) s \<and>
     v = ?r \<and> (\<forall>c\<in>set v. \<not> P c)" by blast
  next
    assume a: "(\<exists>c\<in>set s. P c) \<and> n = takeWhile (\<lambda>c. \<not> P c) s \<and>
     v = ?r \<and> (\<forall>c\<in>set v. \<not> P c)"
    then have n: "n = takeWhile (\<lambda>c. \<not> P c) s" and v: "v = ?r" by blast+
    from a have "\<forall>c\<in>set ?r. \<not> P c" by blast
    from split_runs_none [OF this] have "split_runs P ?r = [?r]" .
    with u have "split_runs P s = [takeWhile (\<lambda>c. \<not> P c) s, ?r]" by (simp only:)
    then show "split_runs P s = [n, v]" by (simp only: n v)
  qed
qed

lemma case_not_pair:
  assumes "\<And>n v. xs \<noteq> [n, v]"
  shows "(case xs of [n, v] \<Rightarrow> f n v | _ \<Rightarrow> d) = d"
proof (cases xs)
  case Nil
  then show ?thesis by simp
next
  case (Cons a as)
  note c1 = this
  show ?thesis
  proof (cases as)
    case Nil
    with c1 show ?thesis by simp
  next
    case (Cons b bs)
    with c1 assms [of a b] show ?thesis by (cases bs) simp_all
  qed
qed

subsection \<open>Version suffixes\<close>

lemma version_split_plain:
  "CHR ''@'' \<notin> set name \<Longrightarrow>
     version_split name symb = Inr (name, symb(''Default'' \<mapsto> BoolV True, ''Version'' \<mapsto> NoneV))"
  by (simp add: version_split_def)

lemma version_split_one_run:
  assumes "CHR ''@'' \<in> set name"
    and "CHR ''@'' \<notin> set (dropWhile (\<lambda>c. c = CHR ''@'') (dropWhile (\<lambda>c. c \<noteq> CHR ''@'') name))"
  shows "version_split name symb =
           Inr (takeWhile (\<lambda>c. c \<noteq> CHR ''@'') name,
                symb(''Default'' \<mapsto> BoolV (contains name ''@@''),
                     ''Name'' \<mapsto> StrV (takeWhile (\<lambda>c. c \<noteq> CHR ''@'') name),
                     ''Version'' \<mapsto> StrV (dropWhile (\<lambda>c. c = CHR ''@'') (dropWhile (\<lambda>c. c \<noteq> CHR ''@'') name))))"
proof -
  let ?r = "dropWhile (\<lambda>c. c = CHR ''@'') (dropWhile (\<lambda>c. c \<noteq> CHR ''@'') name)"
  from assms(1) have 1: "\<exists>c\<in>set name. c = CHR ''@''" by blast
  from assms(2) have 2: "\<forall>c\<in>set ?r. c \<noteq> CHR ''@''" by blast
  have "split_runs (\<lambda>c. c = CHR ''@'') name = [takeWhile (\<lambda>c. c \<noteq> CHR ''@'') name, ?r]"
    using 1 2 split_runs_pair [of "\<lambda>c. c = CHR ''@''" name "takeWhile (\<lambda>c. c \<noteq> CHR ''@'') name" ?r]
    by blast
  with assms(1) show ?thesis by (simp add: version_split_def)
qed

lemma version_split_more_runs:
  assumes "CHR ''@'' \<in> set name"
    and "CHR ''@'' \<in> set (dropWhile (\<lambda>c. c = CHR ''@'') (dropWhile (\<lambda>c. c \<noteq> CHR ''@'') name))"
  shows "version_split name symb = Inl ValueError"
proof -
  have "\<And>n v. split_runs (\<lambda>c. c = CHR ''@'') name \<noteq> [n, v]"
  proof
    fix n v assume "split_runs (\<lambda>c. c = CHR ''@'') name = [n, v]"
    then have "\<forall>c\<in>set (dropWhile (\<lambda>c. c = CHR ''@'') (dropWhile (\<lambda>c. c \<noteq> CHR ''@'') name)). c \<noteq> CHR ''@''"
      using split_runs_pair [of "\<lambda>c. c = CHR ''@''" name n v] by blast
    with assms(2) show False by blast
  qed
  from case_not_pair [OF this] assms(1) show ?thesis
    unfolding version_split_def by simp
qed

lemma takeWhile_no_at: "CHR ''@'' \<notin> set (takeWhile (\<lambda>c. c \<noteq> CHR ''@'') name)"
  by (auto dest: set_takeWhileD)

lemma takeWhile_no_at_id:
  "CHR ''@'' \<notin> set name \<Longrightarrow> takeWhile (\<lambda>c. c \<noteq> CHR ''@'') name = name"
  by (auto simp: takeWhile_eq_all_conv)

lemma version_split_Inr:
  assumes "version_split name symb = Inr (n', s')" and "symb ''Name'' = Some (StrV name)"
  shows "n' = takeWhile (\<lambda>c. c \<noteq> CHR ''@'') name \<and> CHR ''@'' \<notin> set n' \<and>
         s' ''Name'' = Some (StrV n')"
proof (cases "CHR ''@'' \<in> set name")
  case False
  from version_split_plain [OF False, of symb] assms
  have n': "n' = name" and s': "s' = symb(''Default'' \<mapsto> BoolV True, ''Version'' \<mapsto> NoneV)"
    by simp_all
  show ?thesis unfolding n' s' using False assms(2) by (simp add: takeWhile_no_at_id)
next
  case True
  show ?thesis
  proof (cases "CHR ''@'' \<in> set (dropWhile (\<lambda>c. c = CHR ''@'') (dropWhile (\<lambda>c. c \<noteq> CHR ''@'') name))")
    case True
    from version_split_more_runs [OF \<open>CHR ''@'' \<in> set name\<close> True, of symb] assms
    show ?thesis by simp
  next
    case False
    from version_split_one_run [OF True False, of symb] assms True takeWhile_no_at [of name]
    show ?thesis by simp
  qed
qed

subsection \<open>The loops of the symbol collector\<close>

text \<open>
  A row either leaves the state as it is or appends one symbol and adds the raw name of
  the row to \<^verbatim>\<open>syms_set\<close>; an invariant of the rows is an invariant of the loop.
\<close>

lemma elf_row_step:
  assumes "elf_row vis toc words (syms, seen) = Inr (syms', seen')"
  shows "(syms' = syms \<and> seen' = seen) \<or>
         (\<exists>raw s. raw \<notin> seen \<and> seen' = insert raw seen \<and> syms' = syms @ [s] \<and>
            CHR ''@'' \<notin> set (takeWhile (\<lambda>c. c \<noteq> CHR ''@'') raw) \<and>
            s ''Name'' = Some (StrV (takeWhile (\<lambda>c. c \<noteq> CHR ''@'') raw)) \<and>
            s ''Visibility'' =
              Some (StrV (visibility_get vis (takeWhile (\<lambda>c. c \<noteq> CHR ''@'') raw))))"
proof -
  from assms obtain row where row: "parse_row words toc [''Value''] = Inr row"
    by (auto simp: elf_row_def split: sum.splits)
  have "\<exists>name. row ''Name'' = Some (StrV name)"
  proof (cases "row ''Name''")
    case None
    with assms row show ?thesis by (simp add: elf_row_def)
  next
    case (Some v)
    with assms row show ?thesis by (cases v) (simp_all add: elf_row_def)
  qed
  then obtain name where name: "row ''Name'' = Some (StrV name)" ..
  show ?thesis
  proof (cases "name = [] \<or> name \<in> seen")
    case True
    with assms row name have "syms' = syms \<and> seen' = seen"
      by (auto simp: elf_row_def split: if_splits)
    then show ?thesis by blast
  next
    case False
    then have f: "name \<noteq> []" "name \<notin> seen" by simp_all
    have "\<exists>sz. row ''Size'' = Some (StrV sz)"
    proof (cases "row ''Size''")
      case None
      with assms row name f show ?thesis by (simp add: elf_row_def)
    next
      case (Some v)
      with assms row name f show ?thesis by (cases v) (simp_all add: elf_row_def)
    qed
    then obtain sz where sz: "row ''Size'' = Some (StrV sz)" ..
    have "\<exists>n. py_int 0 sz = Some n"
    proof (cases "py_int 0 sz")
      case None
      with assms row name f sz show ?thesis by (simp add: elf_row_def)
    qed simp
    then obtain n where n: "py_int 0 sz = Some n" ..
    have "\<exists>n' s'. version_split name (row(''Size'' \<mapsto> IntV n)) = Inr (n', s')"
    proof (cases "version_split name (row(''Size'' \<mapsto> IntV n))")
      case (Inl e)
      with assms row name f sz n show ?thesis by (simp add: elf_row_def)
    next
      case (Inr p)
      then show ?thesis by (cases p) simp
    qed
    then obtain n' s' where vs: "version_split name (row(''Size'' \<mapsto> IntV n)) = Inr (n', s')"
      by blast
    with assms row name f sz n
    have res: "syms' = syms @ [s'(''Visibility'' \<mapsto> StrV (visibility_get vis n'))]"
               "seen' = insert name seen"
      by (simp_all add: elf_row_def)
    from name have "(row(''Size'' \<mapsto> IntV n)) ''Name'' = Some (StrV name)" by simp
    from version_split_Inr [OF vs this]
    have n': "n' = takeWhile (\<lambda>c. c \<noteq> CHR ''@'') name" and noat: "CHR ''@'' \<notin> set n'"
      and nm: "s' ''Name'' = Some (StrV n')"
      by blast+
    let ?s = "s'(''Visibility'' \<mapsto> StrV (visibility_get vis n'))"
    have "name \<notin> seen \<and> seen' = insert name seen \<and> syms' = syms @ [?s] \<and>
            CHR ''@'' \<notin> set (takeWhile (\<lambda>c. c \<noteq> CHR ''@'') name) \<and>
            ?s ''Name'' = Some (StrV (takeWhile (\<lambda>c. c \<noteq> CHR ''@'') name)) \<and>
            ?s ''Visibility'' =
              Some (StrV (visibility_get vis (takeWhile (\<lambda>c. c \<noteq> CHR ''@'') name)))"
      using False res n' noat nm by simp
    then show ?thesis by blast
  qed
qed

lemma elf_loop_invariant:
  assumes step: "\<And>toc words syms seen syms' seen'.
      I syms seen \<Longrightarrow> elf_row vis toc words (syms, seen) = Inr (syms', seen') \<Longrightarrow> I syms' seen'"
    and run: "elf_loop vis ls (toc, syms, seen) = Inr (toc', syms', seen')"
    and init: "I syms seen"
  shows "I syms' seen'"
  using run init
proof (induction ls arbitrary: toc syms seen)
  case Nil
  then show ?case by simp
next
  case (Cons l ls)
  let ?line = "sub_localentry (strip l)"
  let ?words = "split_runs (\<lambda>c. c = CHR '' '') ?line"
  show ?case
  proof (cases "?line = []")
    case True
    with Cons.prems(1) have "elf_loop vis ls (None, syms, seen) = Inr (toc', syms', seen')"
      by (simp add: Let_def)
    from Cons.IH [OF this Cons.prems(2)] show ?thesis .
  next
    case False
    note ne = this
    show ?thesis
    proof (cases "startswith ?line ''Num''")
      case True
      with ne Cons.prems(1) obtain t where
        "elf_loop vis ls (Some t, syms, seen) = Inr (toc', syms', seen')"
        by (auto simp: Let_def split: if_splits)
      from Cons.IH [OF this Cons.prems(2)] show ?thesis .
    next
      case False
      note nh = this
      show ?thesis
      proof (cases toc)
        case None
        with ne nh Cons.prems(1) have "elf_loop vis ls (None, syms, seen) = Inr (toc', syms', seen')"
          by (simp add: Let_def)
        from Cons.IH [OF this Cons.prems(2)] show ?thesis .
      next
        case (Some t)
        with ne nh Cons.prems(1) obtain syms1 seen1 where
          r: "elf_row vis t ?words (syms, seen) = Inr (syms1, seen1)"
          and l: "elf_loop vis ls (toc, syms1, seen1) = Inr (toc', syms', seen')"
          by (auto simp: Let_def split: sum.splits)
        from step [OF Cons.prems(2) r] have "I syms1 seen1" .
        from Cons.IH [OF l this] show ?thesis .
      qed
    qed
  qed
qed

lemma elf_loop_names:
  assumes "elf_loop vis ls (toc, syms, seen) = Inr (toc', syms', seen')"
    and "\<forall>s\<in>set syms. \<exists>n. s ''Name'' = Some (StrV n) \<and> CHR ''@'' \<notin> set n \<and>
            s ''Visibility'' = Some (StrV (visibility_get vis n))"
  shows "\<forall>s\<in>set syms'. \<exists>n. s ''Name'' = Some (StrV n) \<and> CHR ''@'' \<notin> set n \<and>
            s ''Visibility'' = Some (StrV (visibility_get vis n))"
proof (rule elf_loop_invariant [where I = "\<lambda>syms seen. \<forall>s\<in>set syms. \<exists>n. s ''Name'' = Some (StrV n) \<and> CHR ''@'' \<notin> set n \<and>
            s ''Visibility'' = Some (StrV (visibility_get vis n))", OF _ assms(1) assms(2)])
  fix toc words syms seen syms' seen'
  assume i: "\<forall>s\<in>set syms. \<exists>n. s ''Name'' = Some (StrV n) \<and> CHR ''@'' \<notin> set n \<and>
            s ''Visibility'' = Some (StrV (visibility_get vis n))"
    and r: "elf_row vis toc words (syms, seen) = Inr (syms', seen')"
  from elf_row_step [OF r] i
  show "\<forall>s\<in>set syms'. \<exists>n. s ''Name'' = Some (StrV n) \<and> CHR ''@'' \<notin> set n \<and>
            s ''Visibility'' = Some (StrV (visibility_get vis n))"
    by auto
qed

lemma elf_loop_raw_names:
  assumes "elf_loop vis ls (toc, syms, seen) = Inr (toc', syms', seen')"
    and "finite seen \<and> mset (stored_names syms) =
           image_mset (\<lambda>raw. Some (StrV (takeWhile (\<lambda>c. c \<noteq> CHR ''@'') raw))) (mset_set seen)"
  shows "finite seen' \<and> mset (stored_names syms') =
           image_mset (\<lambda>raw. Some (StrV (takeWhile (\<lambda>c. c \<noteq> CHR ''@'') raw))) (mset_set seen')"
proof (rule elf_loop_invariant [where I = "\<lambda>syms seen. finite seen \<and> mset (stored_names syms) =
           image_mset (\<lambda>raw. Some (StrV (takeWhile (\<lambda>c. c \<noteq> CHR ''@'') raw))) (mset_set seen)", OF _ assms(1) assms(2)])
  fix toc words syms seen syms' seen'
  assume i: "finite seen \<and> mset (stored_names syms) =
           image_mset (\<lambda>raw. Some (StrV (takeWhile (\<lambda>c. c \<noteq> CHR ''@'') raw))) (mset_set seen)"
    and r: "elf_row vis toc words (syms, seen) = Inr (syms', seen')"
  from elf_row_step [OF r] i
  show "finite seen' \<and> mset (stored_names syms') =
           image_mset (\<lambda>raw. Some (StrV (takeWhile (\<lambda>c. c \<noteq> CHR ''@'') raw))) (mset_set seen')"
    by (auto simp: stored_names_def)
qed

lemma macho_row_step:
  assumes "macho_row vis parts (syms, seen) = Inr (syms', seen')"
  shows "(syms' = syms \<and> seen' = seen) \<or>
         (\<exists>name s. name \<notin> seen \<and> seen' = insert name seen \<and> syms' = syms @ [s] \<and>
            s ''Name'' = Some (StrV name) \<and>
            s ''Visibility'' = Some (StrV (visibility_get vis name)))"
proof (cases "3 \<le> length parts \<and> parts ! 2 \<notin> seen")
  case False
  with assms have "syms' = syms \<and> seen' = seen"
    by (auto simp: macho_row_def Let_def split: if_splits)
  then show ?thesis by blast
next
  case True
  let ?v = "if parts ! 0 \<noteq> ''U'' then py_int 16 (parts ! 0) else Some 0"
  have "\<exists>v. ?v = Some v"
  proof (cases ?v)
    case None
    with assms True show ?thesis by (simp add: macho_row_def Let_def)
  qed simp
  then obtain v where v: "?v = Some v" ..
  from assms True v
  have "syms' = syms @ [last syms'] \<and> seen' = insert (parts ! 2) seen \<and>
        last syms' ''Name'' = Some (StrV (parts ! 2)) \<and>
        last syms' ''Visibility'' = Some (StrV (visibility_get vis (parts ! 2)))"
    by (auto simp: macho_row_def Let_def)
  with True show ?thesis by blast
qed

lemma macho_loop_invariant:
  assumes step: "\<And>parts syms seen syms' seen'.
      I syms seen \<Longrightarrow> macho_row vis parts (syms, seen) = Inr (syms', seen') \<Longrightarrow> I syms' seen'"
    and run: "macho_loop vis ls (syms, seen) = Inr (syms', seen')"
    and init: "I syms seen"
  shows "I syms' seen'"
  using run init
proof (induction ls arbitrary: syms seen)
  case Nil
  then show ?case by simp
next
  case (Cons l ls)
  show ?case
  proof (cases "strip l = []")
    case True
    with Cons.prems(1) have "macho_loop vis ls (syms, seen) = Inr (syms', seen')"
      by (simp add: Let_def)
    from Cons.IH [OF this Cons.prems(2)] show ?thesis .
  next
    case False
    with Cons.prems(1) obtain syms1 seen1 where
      r: "macho_row vis (py_split (strip l)) (syms, seen) = Inr (syms1, seen1)"
      and l: "macho_loop vis ls (syms1, seen1) = Inr (syms', seen')"
      by (auto simp: Let_def split: sum.splits)
    from step [OF Cons.prems(2) r] have "I syms1 seen1" .
    from Cons.IH [OF l this] show ?thesis .
  qed
qed

lemma macho_loop_names:
  assumes "macho_loop vis ls (syms, seen) = Inr (syms', seen')"
    and "(\<forall>s\<in>set syms. \<exists>n. s ''Name'' = Some (StrV n) \<and>
            s ''Visibility'' = Some (StrV (visibility_get vis n))) \<and>
         distinct (stored_names syms) \<and> set (stored_names syms) = (\<lambda>raw. Some (StrV raw)) ` seen"
  shows "(\<forall>s\<in>set syms'. \<exists>n. s ''Name'' = Some (StrV n) \<and>
            s ''Visibility'' = Some (StrV (visibility_get vis n))) \<and>
         distinct (stored_names syms') \<and> set (stored_names syms') = (\<lambda>raw. Some (StrV raw)) ` seen'"
proof (rule macho_loop_invariant [where I = "\<lambda>syms seen. (\<forall>s\<in>set syms. \<exists>n. s ''Name'' = Some (StrV n) \<and>
            s ''Visibility'' = Some (StrV (visibility_get vis n))) \<and>
         distinct (stored_names syms) \<and> set (stored_names syms) = (\<lambda>raw. Some (StrV raw)) ` seen", OF _ assms(1) assms(2)])
  fix parts syms seen syms' seen'
  assume i: "(\<forall>s\<in>set syms. \<exists>n. s ''Name'' = Some (StrV n) \<and>
            s ''Visibility'' = Some (StrV (visibility_get vis n))) \<and>
         distinct (stored_names syms) \<and> set (stored_names syms) = (\<lambda>raw. Some (StrV raw)) ` seen"
    and r: "macho_row vis parts (syms, seen) = Inr (syms', seen')"
  from macho_row_step [OF r]
  show "(\<forall>s\<in>set syms'. \<exists>n. s ''Name'' = Some (StrV n) \<and>
            s ''Visibility'' = Some (StrV (visibility_get vis n))) \<and>
         distinct (stored_names syms') \<and> set (stored_names syms') = (\<lambda>raw. Some (StrV raw)) ` seen'"
  proof
    assume "syms' = syms \<and> seen' = seen"
    with i show ?thesis by simp
  next
    assume "\<exists>name s. name \<notin> seen \<and> seen' = insert name seen \<and> syms' = syms @ [s] \<and>
            s ''Name'' = Some (StrV name) \<and>
            s ''Visibility'' = Some (StrV (visibility_get vis name))"
    then obtain name s where new: "name \<notin> seen" "seen' = insert name seen" "syms' = syms @ [s]"
      "s ''Name'' = Some (StrV name)" "s ''Visibility'' = Some (StrV (visibility_get vis name))"
      by blast
    from i new(1) have fresh: "Some (StrV name) \<notin> set (stored_names syms)" by auto
    from i new have 1: "\<forall>s\<in>set syms'. \<exists>n. s ''Name'' = Some (StrV n) \<and>
            s ''Visibility'' = Some (StrV (visibility_get vis n))" by auto
    from new(3,4) have sn: "stored_names syms' = stored_names syms @ [Some (StrV name)]"
      by (simp add: stored_names_def)
    from i fresh have 2: "distinct (stored_names syms')" unfolding sn by simp
    from i new(2) have 3: "set (stored_names syms') = (\<lambda>raw. Some (StrV raw)) ` seen'"
      unfolding sn by simp
    from 1 2 3 show ?thesis by blast
  qed
qed

lemma nm_visibility_fold_None:
  "fold (\<lambda>line visibility.
             let parts = py_split line in
             if 3 \<le> length parts then
               (let symbol_type = parts ! 1; symbol_name = parts ! 2
                in visibility(symbol_name \<mapsto> (if isupper symbol_type then ''DEFAULT'' else ''HIDDEN'')))
             else visibility) ls m name = None \<longleftrightarrow>
   m name = None \<and> (\<forall>line\<in>set ls. 3 \<le> length (py_split line) \<longrightarrow> py_split line ! 2 \<noteq> name)"
  by (induction ls arbitrary: m) (auto simp: Let_def)

lemma nm_visibility_None_iff:
  "nm_visibility nm_lines name = None \<longleftrightarrow>
     (\<forall>line\<in>set nm_lines. 3 \<le> length (py_split line) \<longrightarrow> py_split line ! 2 \<noteq> name)"
  unfolding nm_visibility_def by (subst nm_visibility_fold_None) simp

lemma collect_syms_elf:
  assumes "collect_syms f nm_lines False out_lines = Inr syms"
  shows "\<exists>toc syms_set.
           elf_loop (nm_visibility nm_lines) out_lines (None, [], {}) = Inr (Some toc, syms, syms_set)"
proof (cases "elf_loop (nm_visibility nm_lines) out_lines (None, [], {})")
  case (Inl e)
  with assms show ?thesis by (simp add: collect_syms_def)
next
  case (Inr st)
  obtain toc syms' syms_set where st: "st = (toc, syms', syms_set)" by (cases st)
  with Inr assms show ?thesis
    by (cases toc) (simp_all add: collect_syms_def)
qed

lemma collect_syms_macho:
  assumes "collect_syms f nm_lines True out_lines = Inr syms"
  shows "\<exists>syms_set. macho_loop (nm_visibility nm_lines) out_lines ([], {}) = Inr (syms, syms_set)"
proof (cases "macho_loop (nm_visibility nm_lines) out_lines ([], {})")
  case (Inl e)
  with assms show ?thesis by (simp add: collect_syms_def)
next
  case (Inr st)
  with assms show ?thesis by (cases st) (simp add: collect_syms_def)
qed

lemma collect_syms_names:
  assumes "collect_syms f nm_lines is_macho out_lines = Inr syms" and "s \<in> set syms"
  shows "\<exists>n. s ''Name'' = Some (StrV n) \<and> (\<not> is_macho \<longrightarrow> CHR ''@'' \<notin> set n) \<and>
              s ''Visibility'' = Some (StrV (visibility_get (nm_visibility nm_lines) n))"
proof (cases is_macho)
  case True
  with assms(1) have "collect_syms f nm_lines True out_lines = Inr syms" by simp
  from collect_syms_macho [OF this] obtain syms_set where
    "macho_loop (nm_visibility nm_lines) out_lines ([], {}) = Inr (syms, syms_set)" by blast
  from macho_loop_names [OF this] assms(2) True show ?thesis by (simp add: stored_names_def)
next
  case False
  with assms(1) have "collect_syms f nm_lines False out_lines = Inr syms" by simp
  from collect_syms_elf [OF this] obtain toc syms_set where
    "elf_loop (nm_visibility nm_lines) out_lines (None, [], {}) = Inr (Some toc, syms, syms_set)"
    by blast
  from elf_loop_names [OF this] assms(2) False show ?thesis by simp
qed

lemma sample_eval:
  "map_sum id (map (\<lambda>s. map s [''Name'', ''Visibility'', ''Bind'', ''Type'', ''Ndx'']))
     (collect_syms ''lib.so'' nm_sample False readelf_sample) =
   Inr [[Some (StrV ''read''), Some (StrV ''DEFAULT''), Some (StrV ''GLOBAL''), Some (StrV ''FUNC''), Some (StrV ''14'')],
        [Some (StrV ''read''), Some (StrV ''DEFAULT''), Some (StrV ''GLOBAL''), Some (StrV ''FUNC''), Some (StrV ''14'')],
        [Some (StrV ''bar''), Some (StrV ''DEFAULT''), Some (StrV ''WEAK''), Some (StrV ''FUNC''), Some (StrV ''14'')]]"
  by code_simp

lemma sample_syms:
  "\<exists>a b c. collect_syms ''lib.so'' nm_sample False readelf_sample = Inr [a, b, c] \<and>
     a ''Name'' = Some (StrV ''read'') \<and> b ''Name'' = Some (StrV ''read'') \<and>
     c ''Name'' = Some (StrV ''bar'') \<and> c ''Bind'' = Some (StrV ''WEAK'') \<and>
     c ''Type'' = Some (StrV ''FUNC'') \<and> c ''Ndx'' = Some (StrV ''14'')"
proof (cases "collect_syms ''lib.so'' nm_sample False readelf_sample")
  case (Inl e)
  with sample_eval show ?thesis by simp
next
  case (Inr syms)
  with sample_eval show ?thesis by (auto simp: map_eq_Cons_conv)
qed

subsection \<open>Versioned names\<close>

text \<open>
  C7. Take a row of the ELF symbol table that reaches the version split: its \<^verbatim>\<open>Name\<close>
  cell is not empty and was not seen before, and its \<^verbatim>\<open>Size\<close> cell is a numeral. If the
  name contains \<^verbatim>\<open>@\<close>, in one run, the row is stored with the part before the run as its
  name, the part after the run as its version, and \<^verbatim>\<open>Default\<close> true exactly when the
  name contains \<^verbatim>\<open>@@\<close>; the stored name has no \<^verbatim>\<open>@\<close>. (A name with a second run
  of \<^verbatim>\<open>@\<close> is not stored at all: the two-variable assignment raises \<^verbatim>\<open>ValueError\<close>.)
  If the name has no \<^verbatim>\<open>@\<close>, the row is stored with \<^verbatim>\<open>Default\<close> true and no version.
  Consequently no name in the list that \<^verbatim>\<open>collect_syms\<close> returns for an ELF file
  contains \<^verbatim>\<open>@\<close>.
\<close>

theorem elf_row_version:
  assumes "parse_row words toc [''Value''] = Inr row"
    and "row ''Name'' = Some (StrV name)" and "name \<noteq> []" and "name \<notin> syms_set"
    and "row ''Size'' = Some (StrV size_cell)" and "py_int 0 size_cell = Some n"
  shows "(let before = takeWhile (\<lambda>c. c \<noteq> CHR ''@'') name;
              after = dropWhile (\<lambda>c. c = CHR ''@'') (dropWhile (\<lambda>c. c \<noteq> CHR ''@'') name)
          in (CHR ''@'' \<in> set name \<and> CHR ''@'' \<notin> set after \<longrightarrow>
                elf_row visibility toc words (syms, syms_set) =
                  Inr (syms @ [row(''Size'' \<mapsto> IntV n,
                                   ''Default'' \<mapsto> BoolV (contains name ''@@''),
                                   ''Name'' \<mapsto> StrV before,
                                   ''Version'' \<mapsto> StrV after,
                                   ''Visibility'' \<mapsto> StrV (visibility_get visibility before))],
                       insert name syms_set) \<and>
                CHR ''@'' \<notin> set before) \<and>
             (CHR ''@'' \<in> set name \<and> CHR ''@'' \<in> set after \<longrightarrow>
                elf_row visibility toc words (syms, syms_set) = Inl ValueError) \<and>
             (CHR ''@'' \<notin> set name \<longrightarrow>
                elf_row visibility toc words (syms, syms_set) =
                  Inr (syms @ [row(''Size'' \<mapsto> IntV n,
                                   ''Default'' \<mapsto> BoolV True,
                                   ''Version'' \<mapsto> NoneV,
                                   ''Visibility'' \<mapsto> StrV (visibility_get visibility name))],
                       insert name syms_set))) \<and>
         (\<forall>f nm_lines out_lines stored s.
            collect_syms f nm_lines False out_lines = Inr stored \<longrightarrow> s \<in> set stored \<longrightarrow>
            (\<exists>stored_name. s ''Name'' = Some (StrV stored_name) \<and> CHR ''@'' \<notin> set stored_name))"
proof -
  let ?before = "takeWhile (\<lambda>c. c \<noteq> CHR ''@'') name"
  let ?after = "dropWhile (\<lambda>c. c = CHR ''@'') (dropWhile (\<lambda>c. c \<noteq> CHR ''@'') name)"
  have row: "elf_row visibility toc words (syms, syms_set) =
     (case version_split name (row(''Size'' \<mapsto> IntV n)) of Inl e \<Rightarrow> Inl e
      | Inr (name', symb') \<Rightarrow>
          Inr (syms @ [symb'(''Visibility'' \<mapsto> StrV (visibility_get visibility name'))],
               insert name syms_set))"
    using assms by (simp add: elf_row_def split: sum.splits)
  have one: "CHR ''@'' \<in> set name \<and> CHR ''@'' \<notin> set ?after \<longrightarrow>
                elf_row visibility toc words (syms, syms_set) =
                  Inr (syms @ [row(''Size'' \<mapsto> IntV n,
                                   ''Default'' \<mapsto> BoolV (contains name ''@@''),
                                   ''Name'' \<mapsto> StrV ?before,
                                   ''Version'' \<mapsto> StrV ?after,
                                   ''Visibility'' \<mapsto> StrV (visibility_get visibility ?before))],
                       insert name syms_set) \<and>
                CHR ''@'' \<notin> set ?before"
    using version_split_one_run [of name "row(''Size'' \<mapsto> IntV n)"] takeWhile_no_at [of name]
    by (simp add: row)
  have more: "CHR ''@'' \<in> set name \<and> CHR ''@'' \<in> set ?after \<longrightarrow>
                elf_row visibility toc words (syms, syms_set) = Inl ValueError"
    using version_split_more_runs [of name "row(''Size'' \<mapsto> IntV n)"] by (simp add: row)
  have plain: "CHR ''@'' \<notin> set name \<longrightarrow>
                elf_row visibility toc words (syms, syms_set) =
                  Inr (syms @ [row(''Size'' \<mapsto> IntV n,
                                   ''Default'' \<mapsto> BoolV True,
                                   ''Version'' \<mapsto> NoneV,
                                   ''Visibility'' \<mapsto> StrV (visibility_get visibility name))],
                       insert name syms_set)"
    using version_split_plain [of name "row(''Size'' \<mapsto> IntV n)"] by (simp add: row)
  have list: "\<forall>f nm_lines out_lines stored s.
            collect_syms f nm_lines False out_lines = Inr stored \<longrightarrow> s \<in> set stored \<longrightarrow>
            (\<exists>stored_name. s ''Name'' = Some (StrV stored_name) \<and> CHR ''@'' \<notin> set stored_name)"
    using collect_syms_names [where is_macho = False] by blast
  from one more plain list show ?thesis unfolding Let_def by blast
qed

lemma row_sample_value:
  "row_cells [''1:'', ''0000000000001139'', ''11'', ''FUNC'', ''GLOBAL'', ''DEFAULT'', ''14'', ''read@@GLIBC_2.2.5'']
     [''Num'', ''Value'', ''Size'', ''Type'', ''Bind'', ''Vis'', ''Ndx'', ''Name''] ''Value'' = Some (StrV ''0000000000001139'')"
  by code_simp

lemma row_sample_name:
  "row_cells [''1:'', ''0000000000001139'', ''11'', ''FUNC'', ''GLOBAL'', ''DEFAULT'', ''14'', ''read@@GLIBC_2.2.5'']
     [''Num'', ''Value'', ''Size'', ''Type'', ''Bind'', ''Vis'', ''Ndx'', ''Name''] ''Name'' = Some (StrV ''read@@GLIBC_2.2.5'')"
  by code_simp

lemma row_sample_size:
  "row_cells [''1:'', ''0000000000001139'', ''11'', ''FUNC'', ''GLOBAL'', ''DEFAULT'', ''14'', ''read@@GLIBC_2.2.5'']
     [''Num'', ''Value'', ''Size'', ''Type'', ''Bind'', ''Vis'', ''Ndx'', ''Name''] ''Size'' = Some (StrV ''11'')"
  by code_simp

lemma sample_value_hex: "py_int 16 ''0000000000001139'' = Some 4409"
  by code_simp

lemma sample_size_int: "py_int 0 ''11'' = Some 11"
  by code_simp

lemma sample_name_before: "takeWhile (\<lambda>c. c \<noteq> CHR ''@'') ''read@@GLIBC_2.2.5'' = ''read''"
  by simp

lemma sample_name_after:
  "dropWhile (\<lambda>c. c = CHR ''@'') (dropWhile (\<lambda>c. c \<noteq> CHR ''@'') ''read@@GLIBC_2.2.5'') = ''GLIBC_2.2.5''"
  by simp

lemma sample_name_default: "contains ''read@@GLIBC_2.2.5'' ''@@'' = True"
  by code_simp

theorem elf_row_version_witness:
  "elf_row Map.empty [''Num'', ''Value'', ''Size'', ''Type'', ''Bind'', ''Vis'', ''Ndx'', ''Name'']
     [''1:'', ''0000000000001139'', ''11'', ''FUNC'', ''GLOBAL'', ''DEFAULT'', ''14'', ''read@@GLIBC_2.2.5'']
     ([], {}) =
   Inr ([] @ [(row_cells [''1:'', ''0000000000001139'', ''11'', ''FUNC'', ''GLOBAL'', ''DEFAULT'', ''14'', ''read@@GLIBC_2.2.5'']
           [''Num'', ''Value'', ''Size'', ''Type'', ''Bind'', ''Vis'', ''Ndx'', ''Name''])
          (''Value'' \<mapsto> IntV 4409, ''Size'' \<mapsto> IntV 11, ''Default'' \<mapsto> BoolV True,
           ''Name'' \<mapsto> StrV ''read'', ''Version'' \<mapsto> StrV ''GLIBC_2.2.5'',
           ''Visibility'' \<mapsto> StrV ''DEFAULT'')],
        insert ''read@@GLIBC_2.2.5'' {})"
proof -
  let ?words = "[''1:'', ''0000000000001139'', ''11'', ''FUNC'', ''GLOBAL'', ''DEFAULT'', ''14'', ''read@@GLIBC_2.2.5'']"
  let ?toc = "[''Num'', ''Value'', ''Size'', ''Type'', ''Bind'', ''Vis'', ''Ndx'', ''Name'']"
  let ?row = "(row_cells ?words ?toc)(''Value'' \<mapsto> IntV 4409)"
  have p: "parse_row ?words ?toc [''Value''] = Inr ?row"
    by (simp add: parse_row_def row_sample_value sample_value_hex)
  have n: "?row ''Name'' = Some (StrV ''read@@GLIBC_2.2.5'')" by (simp add: row_sample_name)
  have s: "?row ''Size'' = Some (StrV ''11'')" by (simp add: row_sample_size)
  have ne: "''read@@GLIBC_2.2.5'' \<noteq> []" by simp
  have ns: "''read@@GLIBC_2.2.5'' \<notin> {}" by simp
  have h: "CHR ''@'' \<in> set ''read@@GLIBC_2.2.5'' \<and> CHR ''@'' \<notin> set ''GLIBC_2.2.5''" by simp
  have v: "visibility_get Map.empty ''read'' = ''DEFAULT''" by (simp add: visibility_get_def)
  note t = elf_row_version [OF p n ne ns s sample_size_int, of Map.empty "[]", unfolded Let_def
      sample_name_before sample_name_after sample_name_default v]
  from t have "CHR ''@'' \<in> set ''read@@GLIBC_2.2.5'' \<and> CHR ''@'' \<notin> set ''GLIBC_2.2.5'' \<longrightarrow>
      elf_row Map.empty ?toc ?words ([], {}) =
        Inr ([] @ [?row(''Size'' \<mapsto> IntV 11, ''Default'' \<mapsto> BoolV True,
           ''Name'' \<mapsto> StrV ''read'', ''Version'' \<mapsto> StrV ''GLIBC_2.2.5'',
           ''Visibility'' \<mapsto> StrV ''DEFAULT'')], insert ''read@@GLIBC_2.2.5'' {}) \<and>
      CHR ''@'' \<notin> set ''read''"
    by blast
  from this h show ?thesis by blast
qed

subsection \<open>Duplicate names\<close>

text \<open>
  C8, as the claim states it, fails: the set \<^verbatim>\<open>syms_set\<close> holds the names as the tool
  prints them, version suffix included, so the default and a non-default version of one
  function are both kept, and both are stored under the stripped name.
\<close>

theorem collect_syms_stored_names_counterexample:
  "map_sum id stored_names
     (collect_syms ''lib.so'' []
        False
        [''   Num:    Value          Size Type    Bind   Vis      Ndx Name'',
         ''     1: 0000000000001139    11 FUNC    GLOBAL DEFAULT   14 read@@GLIBC_2.2.5'',
         ''     2: 0000000000001150    16 FUNC    GLOBAL DEFAULT   14 read@GLIBC_2.0'']) =
   Inr [Some (StrV ''read''), Some (StrV ''read'')]"
  by code_simp

text \<open>
  C8, amended. Duplicates are dropped by raw name, the \<^verbatim>\<open>Name\<close> cell before the version
  suffix is stripped: for an ELF file the stored names are, with multiplicity, the
  stripped forms of the distinct raw names in \<^verbatim>\<open>syms_set\<close>, one symbol for each raw
  name; for a Mach-O file, where nothing is stripped, the stored names are pairwise
  distinct.
\<close>

theorem collect_syms_raw_names_distinct:
  assumes "collect_syms f nm_lines is_macho out_lines = Inr syms"
  shows "(is_macho \<longrightarrow> distinct (stored_names syms)) \<and>
         (\<not> is_macho \<longrightarrow>
            (\<exists>toc syms_set.
               elf_loop (nm_visibility nm_lines) out_lines (None, [], {}) = Inr (toc, syms, syms_set) \<and>
               finite syms_set \<and>
               mset (stored_names syms) =
                 image_mset (\<lambda>raw. Some (StrV (takeWhile (\<lambda>c. c \<noteq> CHR ''@'') raw)))
                   (mset_set syms_set)))"
proof (cases is_macho)
  case True
  with assms have "collect_syms f nm_lines True out_lines = Inr syms" by simp
  from collect_syms_macho [OF this] obtain syms_set where
    "macho_loop (nm_visibility nm_lines) out_lines ([], {}) = Inr (syms, syms_set)" by blast
  from macho_loop_names [OF this] True show ?thesis by (simp add: stored_names_def)
next
  case False
  with assms have "collect_syms f nm_lines False out_lines = Inr syms" by simp
  from collect_syms_elf [OF this] obtain toc syms_set where
    l: "elf_loop (nm_visibility nm_lines) out_lines (None, [], {}) = Inr (Some toc, syms, syms_set)"
    by blast
  from elf_loop_raw_names [OF l] have "finite syms_set \<and>
               mset (stored_names syms) =
                 image_mset (\<lambda>raw. Some (StrV (takeWhile (\<lambda>c. c \<noteq> CHR ''@'') raw)))
                   (mset_set syms_set)"
    by (simp add: stored_names_def)
  with l False show ?thesis by blast
qed

theorem collect_syms_raw_names_distinct_witness:
  "\<exists>toc syms_set.
     elf_loop (nm_visibility nm_sample) readelf_sample (None, [], {}) =
       Inr (toc, projr (collect_syms ''lib.so'' nm_sample False readelf_sample), syms_set) \<and>
     finite syms_set \<and>
     mset [Some (StrV ''read''), Some (StrV ''read''), Some (StrV ''bar'')] =
       image_mset (\<lambda>raw. Some (StrV (takeWhile (\<lambda>c. c \<noteq> CHR ''@'') raw))) (mset_set syms_set)"
proof -
  from sample_syms obtain a b c where
    r: "collect_syms ''lib.so'' nm_sample False readelf_sample = Inr [a, b, c]"
    and n: "a ''Name'' = Some (StrV ''read'')" "b ''Name'' = Some (StrV ''read'')"
      "c ''Name'' = Some (StrV ''bar'')"
    by blast
  from n have "stored_names [a, b, c] = [Some (StrV ''read''), Some (StrV ''read''), Some (StrV ''bar'')]"
    by (simp add: stored_names_def)
  with collect_syms_raw_names_distinct [OF r] show ?thesis by (simp add: r)
qed

subsection \<open>Default visibility\<close>

text \<open>
  C10. A symbol returned by \<^verbatim>\<open>collect_syms\<close>, on the ELF and on the Mach-O path, whose
  stored name is not the symbol column of any line of the \<^verbatim>\<open>nm -g\<close> listing has
  visibility \<^verbatim>\<open>DEFAULT\<close>; the export filter then decides on the other cells alone, the
  condition on the visibility being true.
\<close>

theorem collect_syms_default_visibility:
  assumes "collect_syms f nm_lines is_macho out_lines = Inr syms"
    and "s \<in> set syms" and "s ''Name'' = Some (StrV name)"
    and "\<forall>line\<in>set nm_lines. 3 \<le> length (py_split line) \<longrightarrow> py_split line ! 2 \<noteq> name"
  shows "s ''Visibility'' = Some (StrV ''DEFAULT'') \<and>
         (\<forall>no_weak_symbols bind typ ndx.
            s ''Bind'' = Some bind \<longrightarrow> s ''Type'' = Some typ \<longrightarrow> s ''Ndx'' = Some ndx \<longrightarrow>
            is_exported no_weak_symbols s =
              Inr (bind \<noteq> StrV ''LOCAL'' \<and> typ \<noteq> StrV ''NOTYPE'' \<and> ndx \<noteq> StrV ''UND'' \<and>
                   name \<noteq> '''' \<and> name \<noteq> ''_init'' \<and> name \<noteq> ''_fini'' \<and>
                   (no_weak_symbols \<longrightarrow> bind \<noteq> StrV ''WEAK'')))"
proof -
  from assms(4) have none: "nm_visibility nm_lines name = None"
    by (simp add: nm_visibility_None_iff)
  from collect_syms_names [OF assms(1,2)] assms(3)
  have "s ''Visibility'' = Some (StrV (visibility_get (nm_visibility nm_lines) name))" by auto
  with none have vis: "s ''Visibility'' = Some (StrV ''DEFAULT'')"
    by (simp add: visibility_get_def)
  with assms(3) show ?thesis by (auto simp: is_exported_def Let_def)
qed

lemma nm_sample_absent:
  "\<forall>line\<in>set nm_sample. 3 \<le> length (py_split line) \<longrightarrow> py_split line ! 2 \<noteq> ''bar''"
  by code_simp

theorem collect_syms_default_visibility_witness:
  "last (projr (collect_syms ''lib.so'' nm_sample False readelf_sample)) ''Name'' = Some (StrV ''bar'') \<and>
   last (projr (collect_syms ''lib.so'' nm_sample False readelf_sample)) ''Visibility'' =
     Some (StrV ''DEFAULT'') \<and>
   is_exported True (last (projr (collect_syms ''lib.so'' nm_sample False readelf_sample))) = Inr False \<and>
   is_exported False (last (projr (collect_syms ''lib.so'' nm_sample False readelf_sample))) = Inr True"
proof -
  from sample_syms obtain a b c where
    r: "collect_syms ''lib.so'' nm_sample False readelf_sample = Inr [a, b, c]"
    and c: "c ''Name'' = Some (StrV ''bar'')" "c ''Bind'' = Some (StrV ''WEAK'')"
      "c ''Type'' = Some (StrV ''FUNC'')" "c ''Ndx'' = Some (StrV ''14'')"
    by blast
  have m: "c \<in> set [a, b, c]" by simp
  from collect_syms_default_visibility [OF r m c(1) nm_sample_absent] c
  show ?thesis by (simp add: r)
qed

subsection \<open>Unrelocated data\<close>

text \<open>
  C2. The claim is what the function is for, and the code misses it: the section that
  contains the symbol is found, but the file is read at the section's offset, not at the
  symbol's position inside the section. For a symbol 8 bytes into its section the bytes
  returned are those at the start of the section, not the symbol's own.
\<close>

theorem read_unrelocated_data_section_start:
  "read_unrelocated_data (map of_nat [0..<24])
     [(''_ZTV1C'', \<lparr>sym_Value = 24, sym_Size = 4, sym_Demangled_Name = ''vtable for C''\<rparr>)]
     [\<lparr>sec_Address = 16, sec_Off = 4, sec_Size = 16\<rparr>] =
     Inr [(''_ZTV1C'', [4, 5, 6, 7])] \<and>
   seek_read (map of_nat [0..<24]) (4 + (24 - 16)) 4 = [12, 13, 14, 15]"
  by code_simp

subsection \<open>The words of a table\<close>

text \<open>
  What lines 416 to 421 compute: the number of slots is the number of words, rounded up,
  and slot \<open>k\<close> is decoded from the bytes at \<open>k * ptr_size * ptr_size\<close>, an empty
  slice with value 0 once that position is beyond the data.
\<close>

lemma length_py_range: "length (py_range n step) = (n + step - 1) div step"
  by (simp add: py_range_def)

lemma offsets_length: "length (offsets b ptr_size) = (length b + ptr_size - 1) div ptr_size"
  by (simp add: offsets_def py_range_def)

lemma offsets_nth:
  assumes "k < (length b + ptr_size - 1) div ptr_size"
  shows "offsets b ptr_size ! k =
           Offset (from_bytes_little (py_slice b (k * ptr_size * ptr_size) ((k * ptr_size + 1) * ptr_size)))"
  using assms by (simp add: offsets_def py_range_def)

lemma vtable_bytes_length: "length vtable_bytes = 16"
  by (simp add: vtable_bytes_def)

lemma py_range_16_8: "py_range 16 8 = [0, 8]"
  by (simp add: py_range_def numeral_2_eq_2)

lemma vtable_offsets: "offsets vtable_bytes 8 = [Offset 1, Offset 0]"
  unfolding offsets_def vtable_bytes_length py_range_16_8
  by (simp add: vtable_bytes_def py_slice_def from_bytes_little_def)

lemma vtable_not_typeinfo: "\<not> startswith (sym_Demangled_Name vtable_C) ''typeinfo name''"
  by (simp add: vtable_C_def startswith_def)

lemma vtable_symbol_data:
  "symbol_data vtable_C (Some vtable_bytes) rels 8 reloc_types =
     overlay 4096 4112 8 reloc_types rels [Offset 1, Offset 0]"
  using vtable_not_typeinfo by (simp add: symbol_data_def vtable_offsets) (simp add: vtable_C_def)

text \<open>
  C1. The number of slots is as the claim says; the words are not. On a table of two
  8-byte words with values 1 and 2 and no relocation, the code yields \<open>Offset 1\<close> and
  \<open>Offset 0\<close>, where the second word of the raw bytes is 2.
\<close>

theorem collect_relocated_data_stride:
  "collect_relocated_data [(''_ZTV1C'', vtable_C)] [(''_ZTV1C'', vtable_bytes)] [] 8 {''R_X86_64_64''} =
     Inr [(''_ZTV1C'', [Offset 1, Offset 0])] \<and>
   from_bytes_little (py_slice vtable_bytes 8 16) = 2"
  by (simp add: collect_relocated_data_def vtable_symbol_data)
     (simp add: vtable_bytes_def py_slice_def from_bytes_little_def)

subsection \<open>The relocation overlay\<close>

lemma length_place [simp]: "length (place s p t r d) = length d"
  by (simp add: place_def)

lemma length_fold_place [simp]: "length (fold (place s p t) rels d) = length d"
  by (induction rels arbitrary: d) simp_all

lemma overlay_Cons:
  "overlay (sym_Value s) (sym_Value s + sym_Size s) p t (r # rels) d =
     (if applies s t r \<and> \<not> slot_index s p r < length d then Inl AssertionError
      else overlay (sym_Value s) (sym_Value s + sym_Size s) p t rels (place s p t r d))"
  by (simp add: applies_def slot_index_def place_def Let_def)

lemma overlay_fold:
  assumes "\<forall>r\<in>set rels. applies s t r \<longrightarrow> slot_index s p r < length d"
  shows "overlay (sym_Value s) (sym_Value s + sym_Size s) p t rels d = Inr (fold (place s p t) rels d)"
  using assms
proof (induction rels arbitrary: d)
  case Nil
  show ?case by simp
next
  case (Cons r rels)
  from Cons.prems have "\<forall>r'\<in>set rels. applies s t r' \<longrightarrow> slot_index s p r' < length (place s p t r d)"
    by simp
  from Cons.IH [OF this] have "overlay (sym_Value s) (sym_Value s + sym_Size s) p t rels (place s p t r d) =
    Inr (fold (place s p t) rels (place s p t r d))" .
  moreover from Cons.prems have "\<not> (applies s t r \<and> \<not> slot_index s p r < length d)" by simp
  ultimately show ?case by (simp add: overlay_Cons del: overlay.simps)
qed

lemma overlay_fail:
  assumes "\<exists>r\<in>set rels. applies s t r \<and> \<not> slot_index s p r < length d"
  shows "overlay (sym_Value s) (sym_Value s + sym_Size s) p t rels d = Inl AssertionError"
  using assms
proof (induction rels arbitrary: d)
  case Nil
  then show ?case by simp
next
  case (Cons r rels)
  show ?case
  proof (cases "applies s t r \<and> \<not> slot_index s p r < length d")
    case True
    then show ?thesis by (simp add: overlay_Cons del: overlay.simps)
  next
    case False
    with Cons.prems have "\<exists>r'\<in>set rels. applies s t r' \<and> \<not> slot_index s p r' < length (place s p t r d)"
      by auto
    from Cons.IH [OF this] False show ?thesis by (simp add: overlay_Cons del: overlay.simps)
  qed
qed

lemma fold_place_untouched:
  assumes "\<forall>r\<in>set rels. applies s t r \<longrightarrow> slot_index s p r \<noteq> j"
  shows "fold (place s p t) rels d ! j = d ! j"
  using assms
proof (induction rels arbitrary: d)
  case Nil
  show ?case by simp
next
  case (Cons r rels)
  then have "fold (place s p t) rels (place s p t r d) ! j = place s p t r d ! j" by simp
  also from Cons.prems have "place s p t r d ! j = d ! j" by (simp add: place_def)
  finally show ?case by simp
qed

lemma fold_place_kept:
  assumes "\<forall>r'\<in>set rels. applies s t r' \<and> slot_index s p r' = j \<longrightarrow> r' = r"
    and "d ! j = Reloc r" and "j < length d"
  shows "fold (place s p t) rels d ! j = Reloc r"
  using assms
proof (induction rels arbitrary: d)
  case Nil
  then show ?case by simp
next
  case (Cons x rels)
  have "place s p t x d ! j = Reloc r"
  proof (cases "applies s t x \<and> slot_index s p x = j")
    case True
    with Cons.prems(1) have "x = r" by simp
    with True Cons.prems(3) show ?thesis by (simp add: place_def)
  next
    case False
    with Cons.prems(2) show ?thesis by (auto simp: place_def)
  qed
  moreover from Cons.prems(3) have "j < length (place s p t x d)" by simp
  moreover from Cons.prems(1) have "\<forall>r'\<in>set rels. applies s t r' \<and> slot_index s p r' = j \<longrightarrow> r' = r"
    by simp
  ultimately have "fold (place s p t) rels (place s p t x d) ! j = Reloc r"
    by (rule Cons.IH [rotated])
  then show ?case by simp
qed

lemma fold_place_hit:
  assumes "r \<in> set rels" and "applies s t r" and "slot_index s p r = j" and "j < length d"
    and "\<forall>r'\<in>set rels. applies s t r' \<and> slot_index s p r' = j \<longrightarrow> r' = r"
  shows "fold (place s p t) rels d ! j = Reloc r"
  using assms
proof (induction rels arbitrary: d)
  case Nil
  then show ?case by simp
next
  case (Cons x rels)
  from Cons.prems(5) have u: "\<forall>r'\<in>set rels. applies s t r' \<and> slot_index s p r' = j \<longrightarrow> r' = r"
    by simp
  from Cons.prems(4) have l: "j < length (place s p t x d)" by simp
  show ?case
  proof (cases "r \<in> set rels")
    case True
    from Cons.IH [OF True Cons.prems(2,3) l u] show ?thesis by simp
  next
    case False
    with Cons.prems(1) have "x = r" by simp
    with Cons.prems(2,3,4) have "place s p t x d ! j = Reloc r" by (simp add: place_def)
    from fold_place_kept [OF u this l] show ?thesis by simp
  qed
qed

lemma fold_place_set:
  assumes "set rels = set rels'" and "collision_free s p t rels"
  shows "fold (place s p t) rels d = fold (place s p t) rels' d"
proof (rule nth_equalityI)
  show "length (fold (place s p t) rels d) = length (fold (place s p t) rels' d)" by simp
next
  fix j assume "j < length (fold (place s p t) rels d)"
  then have j: "j < length d" by simp
  show "fold (place s p t) rels d ! j = fold (place s p t) rels' d ! j"
  proof (cases "\<exists>r\<in>set rels. applies s t r \<and> slot_index s p r = j")
    case True
    then obtain r where r: "r \<in> set rels" "applies s t r" "slot_index s p r = j" by blast
    with assms(2) have u: "\<forall>r'\<in>set rels. applies s t r' \<and> slot_index s p r' = j \<longrightarrow> r' = r"
      unfolding collision_free_def by blast
    from u assms(1) have u': "\<forall>r'\<in>set rels'. applies s t r' \<and> slot_index s p r' = j \<longrightarrow> r' = r"
      by simp
    from r(1) assms(1) have r': "r \<in> set rels'" by simp
    from fold_place_hit [OF r(1) r(2) r(3) j u] fold_place_hit [OF r' r(2) r(3) j u']
    show ?thesis by simp
  next
    case False
    then have n: "\<forall>r\<in>set rels. applies s t r \<longrightarrow> slot_index s p r \<noteq> j" by blast
    with assms(1) have n': "\<forall>r\<in>set rels'. applies s t r \<longrightarrow> slot_index s p r \<noteq> j" by simp
    from fold_place_untouched [OF n] fold_place_untouched [OF n'] show ?thesis by simp
  qed
qed

lemma overlay_set:
  assumes "set rels = set rels'" and "collision_free s p t rels"
  shows "overlay (sym_Value s) (sym_Value s + sym_Size s) p t rels d =
         overlay (sym_Value s) (sym_Value s + sym_Size s) p t rels' d"
proof (cases "\<forall>r\<in>set rels. applies s t r \<longrightarrow> slot_index s p r < length d")
  case True
  with assms(1) have "\<forall>r\<in>set rels'. applies s t r \<longrightarrow> slot_index s p r < length d" by simp
  from overlay_fold [OF True] overlay_fold [OF this] fold_place_set [OF assms]
  show ?thesis by simp
next
  case False
  then have f: "\<exists>r\<in>set rels. applies s t r \<and> \<not> slot_index s p r < length d" by blast
  with assms(1) have "\<exists>r\<in>set rels'. applies s t r \<and> \<not> slot_index s p r < length d" by simp
  from overlay_fail [OF f] overlay_fail [OF this] show ?thesis by simp
qed

lemma symbol_data_set:
  assumes "set rels = set rels'" and "collision_free s p t rels"
  shows "symbol_data s bo rels p t = symbol_data s bo rels' p t"
  using overlay_set [OF assms] by (simp add: symbol_data_def split: option.splits)

lemma collect_symbols_set:
  assumes "set rels = set rels'" and "\<forall>item\<in>set items. collision_free (snd item) p t rels"
  shows "collect_symbols bites rels p t items data = collect_symbols bites rels' p t items data"
  using assms(2)
proof (induction items arbitrary: data)
  case Nil
  show ?case by simp
next
  case (Cons item items)
  obtain name s where item: "item = (name, s)" by (cases item)
  with Cons.prems have "collision_free s p t rels" by simp
  from symbol_data_set [OF assms(1) this]
  have e: "symbol_data s (map_of bites name) rels p t = symbol_data s (map_of bites name) rels' p t" .
  from Cons.prems have "\<forall>item\<in>set items. collision_free (snd item) p t rels" by simp
  from Cons.IH [OF this] e item show ?case by (simp split: sum.splits)
qed

text \<open>
  C4, as the claim states it, fails: a slot keeps the relocation applied last, so two
  different relocations at one slot give different tables in the two orders.
\<close>

theorem overlay_order_counterexample:
  "symbol_data vtable_C (Some vtable_bytes) [reloc_at 4096 ''f'', reloc_at 4096 ''g''] 8 {''R_X86_64_64''} =
     Inr [Reloc (reloc_at 4096 ''g''), Offset 0] \<and>
   symbol_data vtable_C (Some vtable_bytes) [reloc_at 4096 ''g'', reloc_at 4096 ''f''] 8 {''R_X86_64_64''} =
     Inr [Reloc (reloc_at 4096 ''f''), Offset 0] \<and>
   mset [reloc_at 4096 ''f'', reloc_at 4096 ''g''] = mset [reloc_at 4096 ''g'', reloc_at 4096 ''f''] \<and>
   reloc_at 4096 ''g'' \<noteq> reloc_at 4096 ''f''"
  by (simp add: vtable_symbol_data reloc_at_def)

text \<open>
  C4, amended. The overlay is independent of the order of the relocation list when the
  list is free of collisions for the symbol, that is when any two relocations of it that
  apply to the symbol and select the same slot are the same relocation: two permutations
  of such a list give the same result for the symbol, the same slots or the same failed
  assertion, and so does \<^verbatim>\<open>collect_relocated_data\<close> when the list is free of collisions
  for every symbol.
\<close>

theorem overlay_order_independent:
  assumes "mset rels = mset rels'"
  shows "(collision_free s ptr_size reloc_types rels \<longrightarrow>
            symbol_data s bo rels ptr_size reloc_types = symbol_data s bo rels' ptr_size reloc_types) \<and>
         ((\<forall>item\<in>set syms. collision_free (snd item) ptr_size reloc_types rels) \<longrightarrow>
            collect_relocated_data syms bites rels ptr_size reloc_types =
            collect_relocated_data syms bites rels' ptr_size reloc_types)"
proof -
  from assms have e: "set rels = set rels'" by (rule mset_eq_setD)
  have "\<forall>item\<in>set syms. collision_free (snd item) ptr_size reloc_types rels \<Longrightarrow>
        \<forall>item\<in>set (sort_key fst syms). collision_free (snd item) ptr_size reloc_types rels"
    by simp
  with symbol_data_set [OF e] collect_symbols_set [OF e] show ?thesis
    unfolding collect_relocated_data_def by blast
qed

lemma sample_collision_free:
  "collision_free vtable_C 8 {''R_X86_64_64''} [reloc_at 4096 ''f'', reloc_at 4104 ''g'']"
  by (simp add: collision_free_def applies_def slot_index_def vtable_C_def reloc_at_def)

theorem overlay_order_independent_witness:
  "symbol_data vtable_C (Some vtable_bytes) [reloc_at 4096 ''f'', reloc_at 4104 ''g''] 8 {''R_X86_64_64''} =
   symbol_data vtable_C (Some vtable_bytes) [reloc_at 4104 ''g'', reloc_at 4096 ''f''] 8 {''R_X86_64_64''} \<and>
   symbol_data vtable_C (Some vtable_bytes) [reloc_at 4104 ''g'', reloc_at 4096 ''f''] 8 {''R_X86_64_64''} =
     Inr [Reloc (reloc_at 4096 ''f''), Reloc (reloc_at 4104 ''g'')] \<and>
   collect_relocated_data [(''_ZTV1C'', vtable_C)] [(''_ZTV1C'', vtable_bytes)]
       [reloc_at 4096 ''f'', reloc_at 4104 ''g''] 8 {''R_X86_64_64''} =
   collect_relocated_data [(''_ZTV1C'', vtable_C)] [(''_ZTV1C'', vtable_bytes)]
       [reloc_at 4104 ''g'', reloc_at 4096 ''f''] 8 {''R_X86_64_64''}"
proof -
  have m: "mset [reloc_at 4096 ''f'', reloc_at 4104 ''g''] = mset [reloc_at 4104 ''g'', reloc_at 4096 ''f'']"
    by simp
  have e: "symbol_data vtable_C (Some vtable_bytes) [reloc_at 4104 ''g'', reloc_at 4096 ''f''] 8 {''R_X86_64_64''} =
     Inr [Reloc (reloc_at 4096 ''f''), Reloc (reloc_at 4104 ''g'')]"
    by (simp add: vtable_symbol_data reloc_at_def)
  from overlay_order_independent [OF m, of vtable_C 8 "{''R_X86_64_64''}" "Some vtable_bytes"
      "[(''_ZTV1C'', vtable_C)]" "[(''_ZTV1C'', vtable_bytes)]"] sample_collision_free e
  show ?thesis by simp
qed

subsection \<open>Extern declarations\<close>

text \<open>
  C3. The code tests the set \<^verbatim>\<open>printed\<close> and never adds a name to it, so a target that
  occurs in two slots is declared twice: here both virtual functions of a class are
  pure, and \<^verbatim>\<open>__cxa_pure_virtual\<close> gets two \<^verbatim>\<open>extern\<close> lines.
\<close>

theorem generate_vtables_repeated_extern:
  "generate_vtables ()
     [(''_ZTV1C'', \<lparr>sym_Value = 4096, sym_Size = 24, sym_Demangled_Name = ''vtable for C''\<rparr>)]
     [(''_ZTV1C'', [Offset 0, Reloc (reloc_at 4104 ''__cxa_pure_virtual''),
                    Reloc (reloc_at 4112 ''__cxa_pure_virtual'')])] =
   Inr (concat
     [''#ifdef __cplusplus'', [CHR 0x0A],
      ''extern '', [CHR 0x22], ''C'', [CHR 0x22], '' {'', [CHR 0x0A],
      ''#endif'', [CHR 0x0A],
      [CHR 0x0A],
      ''extern const char __cxa_pure_virtual[];'', [CHR 0x0A],
      [CHR 0x0A],
      ''extern const char __cxa_pure_virtual[];'', [CHR 0x0A],
      [CHR 0x0A],
      ''typedef const struct { size_t field_0; const void * field_1; const void * field_2; } _ZTV1C_type;'', [CHR 0x0A],
      ''extern __attribute__((weak)) _ZTV1C_type _ZTV1C;'', [CHR 0x0A],
      ''const _ZTV1C_type _ZTV1C = { 0UL, (const char *)&__cxa_pure_virtual + 0, (const char *)&__cxa_pure_virtual + 0 };'', [CHR 0x0A],
      ''#ifdef __cplusplus'', [CHR 0x0A],
      ''}  // extern '', [CHR 0x22], ''C'', [CHR 0x22], [CHR 0x0A],
      ''#endif'', [CHR 0x0A]])"
  by code_simp

subsection \<open>Relocation targets\<close>

lemma split_on_unfold:
  "split_on d s =
     takeWhile (\<lambda>c. c \<noteq> d) s #
       (case dropWhile (\<lambda>c. c \<noteq> d) s of [] \<Rightarrow> [] | x # r \<Rightarrow> split_on d r)"
proof (induction s)
  case Nil
  show ?case by simp
next
  case (Cons c cs)
  show ?case
  proof (cases "c = d")
    case True
    then show ?thesis by simp
  next
    case False
    with Cons show ?thesis by (simp split: list.splits)
  qed
qed

lemma split_on_none: "d \<notin> set s \<Longrightarrow> split_on d s = [s]"
  by (induction s) auto

lemma split_on_some:
  assumes "d \<in> set s"
  shows "split_on d s =
           takeWhile (\<lambda>c. c \<noteq> d) s # split_on d (tl (dropWhile (\<lambda>c. c \<noteq> d) s))"
proof -
  from assms have "dropWhile (\<lambda>c. c \<noteq> d) s \<noteq> []" by simp
  then obtain x r where xr: "dropWhile (\<lambda>c. c \<noteq> d) s = x # r"
    by (cases "dropWhile (\<lambda>c. c \<noteq> d) s") auto
  show ?thesis by (subst split_on_unfold) (simp add: xr)
qed

lemma split_target_bare:
  assumes "CHR ''+'' \<notin> set cell"
  shows "split_target cell =
           (case py_int 16 cell of None \<Rightarrow> Inl ValueError | Some addend \<Rightarrow> Inr (TupV [] addend))"
  by (simp add: split_target_def split_on_none [OF assms] split: option.splits)

lemma split_target_plus:
  assumes "CHR ''+'' \<in> set cell"
  shows "split_target cell =
           (case py_int 16 (takeWhile (\<lambda>c. c \<noteq> CHR ''+'') (tl (dropWhile (\<lambda>c. c \<noteq> CHR ''+'') cell))) of
              None \<Rightarrow> Inl ValueError
            | Some addend \<Rightarrow> Inr (TupV (takeWhile (\<lambda>c. c \<noteq> CHR ''+'') cell) addend))"
proof -
  let ?r = "tl (dropWhile (\<lambda>c. c \<noteq> CHR ''+'') cell)"
  obtain ws where ws: "split_on (CHR ''+'') ?r = takeWhile (\<lambda>c. c \<noteq> CHR ''+'') ?r # ws"
    using split_on_unfold [of "CHR ''+''" ?r] by blast
  from split_on_some [OF assms] ws
  have p: "split_on (CHR ''+'') cell =
             takeWhile (\<lambda>c. c \<noteq> CHR ''+'') cell # takeWhile (\<lambda>c. c \<noteq> CHR ''+'') ?r # ws"
    by simp
  show ?thesis by (simp add: split_target_def p split: option.splits)
qed

lemma py_int_16_zero: "py_int 16 ''0'' = Some 0"
  by code_simp

lemma split_target_default:
  assumes "CHR ''+'' \<notin> set name"
  shows "split_target (name @ ''+0'') = Inr (TupV name 0)"
proof -
  from assms have t: "takeWhile (\<lambda>c. c \<noteq> CHR ''+'') (name @ ''+0'') = name"
    by (induction name) auto
  from assms have d: "dropWhile (\<lambda>c. c \<noteq> CHR ''+'') (name @ ''+0'') = ''+0''"
    by (induction name) auto
  have "CHR ''+'' \<in> set (name @ ''+0'')" by simp
  from split_target_plus [OF this] show ?thesis
    by (simp add: t d py_int_16_zero)
qed

text \<open>
  C6, as the claim states it, fails: under a header with the column
  \<^verbatim>\<open>Symbol's Name + Addend\<close>, a cell without \<^verbatim>\<open>+\<close> is taken for an addend, not for a
  symbol name. The cell \<^verbatim>\<open>abc\<close> gives the target \<^verbatim>\<open>("", 0xabc)\<close>, and the cell \<^verbatim>\<open>foo\<close>
  raises \<^verbatim>\<open>ValueError\<close>.
\<close>

theorem split_target_counterexample:
  "stored_target
     (reloc_row [''Offset'', ''Info'', ''Type'', ''Symbol's Value'', ''Symbol's Name + Addend'']
        ''0000000000003df8  0000000000000101 R_X86_64_64  0000000000000000 abc'') =
     Inr (Some (TupV [] 2748)) \<and>
   stored_target
     (reloc_row [''Offset'', ''Info'', ''Type'', ''Symbol's Value'', ''Symbol's Name + Addend'']
        ''0000000000003df8  0000000000000101 R_X86_64_64  0000000000000000 foo'') =
     Inl ValueError"
  by code_simp

text \<open>
  C6, amended. For a non-empty target cell that contains \<^verbatim>\<open>+\<close>, the stored target is
  the text before the first \<^verbatim>\<open>+\<close> with the hexadecimal value of the text between the
  first \<^verbatim>\<open>+\<close> and the next one (or the end of the cell). A non-empty cell without
  \<^verbatim>\<open>+\<close> is read as a bare addend: the stored target is the empty name with the
  hexadecimal value of the cell. In both cases a text that is no hexadecimal numeral
  raises \<^verbatim>\<open>ValueError\<close>. The addend defaults to 0 only under a header that has a column
  \<^verbatim>\<open>Symbol's Name\<close> and no column \<^verbatim>\<open>Symbol's Name + Addend\<close>: there a name without
  \<^verbatim>\<open>+\<close> is stored with addend 0.
\<close>

theorem reloc_row_target:
  assumes "parse_row (split_runs is_space (collapse_plus line)) toc [''Offset'', ''Info''] = Inr rel"
  shows "(rel ''Symbol's Name + Addend'' = Some (StrV cell) \<and> cell \<noteq> [] \<and> CHR ''+'' \<in> set cell \<longrightarrow>
            reloc_row toc line =
              (case py_int 16 (takeWhile (\<lambda>c. c \<noteq> CHR ''+'') (tl (dropWhile (\<lambda>c. c \<noteq> CHR ''+'') cell))) of
                 None \<Rightarrow> Inl ValueError
               | Some addend \<Rightarrow>
                   Inr (rel(''Symbol's Name + Addend'' \<mapsto>
                              TupV (takeWhile (\<lambda>c. c \<noteq> CHR ''+'') cell) addend)))) \<and>
         (rel ''Symbol's Name + Addend'' = Some (StrV cell) \<and> cell \<noteq> [] \<and> CHR ''+'' \<notin> set cell \<longrightarrow>
            reloc_row toc line =
              (case py_int 16 cell of
                 None \<Rightarrow> Inl ValueError
               | Some addend \<Rightarrow> Inr (rel(''Symbol's Name + Addend'' \<mapsto> TupV [] addend)))) \<and>
         (rel ''Symbol's Name + Addend'' = None \<and> rel ''Symbol's Name'' = Some (StrV name) \<and>
          CHR ''+'' \<notin> set name \<longrightarrow>
            reloc_row toc line = Inr (rel(''Symbol's Name + Addend'' \<mapsto> TupV name 0)))"
proof (intro conjI impI)
  assume a: "rel ''Symbol's Name + Addend'' = Some (StrV cell) \<and> cell \<noteq> [] \<and> CHR ''+'' \<in> set cell"
  then have "CHR ''+'' \<in> set cell" by simp
  from split_target_plus [OF this] a assms
  show "reloc_row toc line =
              (case py_int 16 (takeWhile (\<lambda>c. c \<noteq> CHR ''+'') (tl (dropWhile (\<lambda>c. c \<noteq> CHR ''+'') cell))) of
                 None \<Rightarrow> Inl ValueError
               | Some addend \<Rightarrow>
                   Inr (rel(''Symbol's Name + Addend'' \<mapsto>
                              TupV (takeWhile (\<lambda>c. c \<noteq> CHR ''+'') cell) addend)))"
    by (simp add: reloc_row_def Let_def split: option.splits)
next
  assume a: "rel ''Symbol's Name + Addend'' = Some (StrV cell) \<and> cell \<noteq> [] \<and> CHR ''+'' \<notin> set cell"
  then have "CHR ''+'' \<notin> set cell" by simp
  from split_target_bare [OF this] a assms
  show "reloc_row toc line =
              (case py_int 16 cell of
                 None \<Rightarrow> Inl ValueError
               | Some addend \<Rightarrow> Inr (rel(''Symbol's Name + Addend'' \<mapsto> TupV [] addend)))"
    by (simp add: reloc_row_def Let_def split: option.splits)
next
  assume a: "rel ''Symbol's Name + Addend'' = None \<and> rel ''Symbol's Name'' = Some (StrV name) \<and>
          CHR ''+'' \<notin> set name"
  then have "CHR ''+'' \<notin> set name" by simp
  from split_target_default [OF this] a assms
  show "reloc_row toc line = Inr (rel(''Symbol's Name + Addend'' \<mapsto> TupV name 0))"
    by (simp add: reloc_row_def Let_def)
qed

lemma reloc_sample_words:
  "split_runs is_space
     (collapse_plus ''0000000000003df8  0000000000000101 R_X86_64_64  0000000000000000 _ZN1C3fooEv + 1f'') =
   [''0000000000003df8'', ''0000000000000101'', ''R_X86_64_64'', ''0000000000000000'', ''_ZN1C3fooEv+1f'']"
  by code_simp

lemma reloc_sample_offset:
  "row_cells [''0000000000003df8'', ''0000000000000101'', ''R_X86_64_64'', ''0000000000000000'', ''_ZN1C3fooEv+1f'']
     [''Offset'', ''Info'', ''Type'', ''Symbol's Value'', ''Symbol's Name + Addend''] ''Offset'' =
     Some (StrV ''0000000000003df8'')"
  by code_simp

lemma reloc_sample_info:
  "row_cells [''0000000000003df8'', ''0000000000000101'', ''R_X86_64_64'', ''0000000000000000'', ''_ZN1C3fooEv+1f'']
     [''Offset'', ''Info'', ''Type'', ''Symbol's Value'', ''Symbol's Name + Addend''] ''Info'' =
     Some (StrV ''0000000000000101'')"
  by code_simp

lemma reloc_sample_cell:
  "row_cells [''0000000000003df8'', ''0000000000000101'', ''R_X86_64_64'', ''0000000000000000'', ''_ZN1C3fooEv+1f'']
     [''Offset'', ''Info'', ''Type'', ''Symbol's Value'', ''Symbol's Name + Addend''] ''Symbol's Name + Addend'' =
     Some (StrV ''_ZN1C3fooEv+1f'')"
  by code_simp

lemma reloc_sample_numbers:
  "py_int 16 ''0000000000003df8'' = Some 15864 \<and> py_int 16 ''0000000000000101'' = Some 257 \<and>
   py_int 16 ''1f'' = Some 31"
  by code_simp

theorem reloc_row_target_witness:
  "stored_target
     (reloc_row [''Offset'', ''Info'', ''Type'', ''Symbol's Value'', ''Symbol's Name + Addend'']
        ''0000000000003df8  0000000000000101 R_X86_64_64  0000000000000000 _ZN1C3fooEv + 1f'') =
     Inr (Some (TupV ''_ZN1C3fooEv'' 31))"
proof -
  let ?toc = "[''Offset'', ''Info'', ''Type'', ''Symbol's Value'', ''Symbol's Name + Addend'']"
  let ?line = "''0000000000003df8  0000000000000101 R_X86_64_64  0000000000000000 _ZN1C3fooEv + 1f''"
  let ?words = "[''0000000000003df8'', ''0000000000000101'', ''R_X86_64_64'', ''0000000000000000'', ''_ZN1C3fooEv+1f'']"
  let ?rel = "(row_cells ?words ?toc)(''Offset'' \<mapsto> IntV 15864, ''Info'' \<mapsto> IntV 257)"
  have p: "parse_row (split_runs is_space (collapse_plus ?line)) ?toc [''Offset'', ''Info''] = Inr ?rel"
    unfolding reloc_sample_words
    by (simp add: parse_row_def reloc_sample_offset reloc_sample_info reloc_sample_numbers)
  have c: "?rel ''Symbol's Name + Addend'' = Some (StrV ''_ZN1C3fooEv+1f'') \<and> ''_ZN1C3fooEv+1f'' \<noteq> [] \<and>
           CHR ''+'' \<in> set ''_ZN1C3fooEv+1f''"
    by (simp add: reloc_sample_cell)
  from reloc_row_target [OF p, of "''_ZN1C3fooEv+1f''"] c
  have "reloc_row ?toc ?line = Inr (?rel(''Symbol's Name + Addend'' \<mapsto> TupV ''_ZN1C3fooEv'' 31))"
    by (simp add: reloc_sample_numbers)
  then show ?thesis by (simp add: stored_target_def)
qed

subsection \<open>Vtable mode and def files\<close>

text \<open>
  C9, as the claim states it, fails at the check it cites: the check looks at the name of
  the input as well, so a text export list whose name does not end in \<^verbatim>\<open>.def\<close> passes
  it and the vtable stage goes on to the section listing.
\<close>

theorem vtables_check_counterexample:
  "\<not> is_binary_file 1 (Some ''exports.txt: ASCII text'') \<and>
   vtables_check True (is_binary_file 1 (Some ''exports.txt: ASCII text'')) ''exports.txt'' = Inr ()"
  by code_simp

text \<open>
  C9, amended. When vtable mode is enabled, the input is not recognised as a binary and
  its name ends in \<^verbatim>\<open>.def\<close>, the program aborts with the fatal error
  \<^verbatim>\<open>vtables not supported for .def files\<close>, and this check aborts in no other case.
\<close>

theorem vtables_check_def_file:
  "(vtables \<and> \<not> is_binary_file readelf_returncode file_output \<and> endswith input_name ''.def'' \<longrightarrow>
      vtables_check vtables (is_binary_file readelf_returncode file_output) input_name =
        Inl (SystemExit ''vtables not supported for .def files'')) \<and>
   (vtables_check vtables (is_binary_file readelf_returncode file_output) input_name = Inl e \<longrightarrow>
      vtables \<and> \<not> is_binary_file readelf_returncode file_output \<and> endswith input_name ''.def'')"
  by (simp add: vtables_check_def)

lemma def_file_sample:
  "\<not> is_binary_file 1 (Some ''libfoo.def: ASCII text'') \<and> endswith ''libfoo.def'' ''.def''"
  by code_simp

theorem vtables_check_def_file_witness:
  "vtables_check True (is_binary_file 1 (Some ''libfoo.def: ASCII text'')) ''libfoo.def'' =
     Inl (SystemExit ''vtables not supported for .def files'')"
  using vtables_check_def_file [of True 1 "Some ''libfoo.def: ASCII text''" "''libfoo.def''"]
    def_file_sample
  by simp

end
